theory Spec2Isabelle
  imports Main "HOL-Library.Sublist"
begin

section \<open>JavaScript values used by the agent\<close>

text \<open>
  A nullable JavaScript string is a \<open>string option\<close>: \<open>None\<close> stands for
  \<open>null\<close>/\<open>undefined\<close>. Strings are lists of code units; the keyword table, the
  option lists and the templates of the source are ASCII, and the few non-ASCII
  symbols of the templates are spelled as their UTF-8 bytes. Counters, scores and
  delays are natural numbers: they stay far below the range where a JavaScript
  number stops being exact.
\<close>

definition truthy :: "string option \<Rightarrow> bool" where
  \<comment> \<open>\<open>null\<close>, \<open>undefined\<close> and the empty string are falsy.\<close>
  "truthy v = (case v of None \<Rightarrow> False | Some s \<Rightarrow> s \<noteq> [])"

definition js_or :: "string option \<Rightarrow> string option \<Rightarrow> string option" where
  \<comment> \<open>\<open>a || b\<close> on nullable strings.\<close>
  "js_or a b = (if truthy a then a else b)"

definition or_str :: "string option \<Rightarrow> string \<Rightarrow> string" where
  \<comment> \<open>\<open>a || 'literal'\<close>.\<close>
  "or_str a d = (case a of None \<Rightarrow> d | Some s \<Rightarrow> if s \<noteq> [] then s else d)"

definition or_int :: "int option \<Rightarrow> int \<Rightarrow> int" where
  \<comment> \<open>\<open>a || fallback\<close> on a nullable timestamp.\<close>
  "or_int a d = (case a of None \<Rightarrow> d | Some t \<Rightarrow> t)"

fun join :: "string \<Rightarrow> string list \<Rightarrow> string" where
  "join sep [] = []"
| "join sep [x] = x"
| "join sep (x # y # ys) = x @ sep @ join sep (y # ys)"

fun split_on :: "char \<Rightarrow> string \<Rightarrow> string list" where
  "split_on c [] = [[]]"
| "split_on c (x # xs) =
     (if x = c then [] # split_on c xs
      else (case split_on c xs of
              [] \<Rightarrow> [[x]]
            | p # ps \<Rightarrow> (x # p) # ps))"

definition filterBoolean :: "string list \<Rightarrow> string list" where
  \<comment> \<open>\<open>lines.filter(Boolean)\<close> on an array of strings drops the empty ones.\<close>
  "filterBoolean ls = filter (\<lambda>l. l \<noteq> []) ls"

function string_of_nat :: "nat \<Rightarrow> string" where
  "string_of_nat n =
     (if n < 10 then [''0123456789'' ! n]
      else string_of_nat (n div 10) @ [''0123456789'' ! (n mod 10)])"
  by pat_completeness auto
termination
  by (relation "measure (\<lambda>n. n)") auto

declare string_of_nat.simps [simp del]

definition toLowerChar :: "char \<Rightarrow> char" where
  \<comment> \<open>Case folding of one code unit: the letters A to Z, everything else unchanged.\<close>
  "toLowerChar c =
     (case map_of (zip ''ABCDEFGHIJKLMNOPQRSTUVWXYZ'' ''abcdefghijklmnopqrstuvwxyz'') c of
        None \<Rightarrow> c
      | Some l \<Rightarrow> l)"

definition toLowerCase :: "string \<Rightarrow> string" where
  "toLowerCase s = map toLowerChar s"

fun includes_str :: "string \<Rightarrow> string \<Rightarrow> bool" where
  \<comment> \<open>\<open>text.includes(kw)\<close>: \<open>kw\<close> occurs in \<open>text\<close> as a contiguous run.\<close>
  "includes_str [] kw = (kw = [])"
| "includes_str (c # cs) kw = (prefix kw (c # cs) \<or> includes_str cs kw)"

fun insert_cmp :: "('a \<Rightarrow> 'a \<Rightarrow> int) \<Rightarrow> 'a \<Rightarrow> 'a list \<Rightarrow> 'a list" where
  "insert_cmp cmp x [] = [x]"
| "insert_cmp cmp x (y # ys) =
     (if cmp x y \<le> 0 then x # y # ys else y # insert_cmp cmp x ys)"

definition js_sort :: "('a \<Rightarrow> 'a \<Rightarrow> int) \<Rightarrow> 'a list \<Rightarrow> 'a list" where
  \<comment> \<open>\<open>Array.prototype.sort(cmp)\<close> for a consistent comparator, as the two numeric
      comparators of the source are. ECMAScript requires the sort to be stable: an
      element ends before the later elements it does not compare greater than.\<close>
  "js_sort cmp xs = foldr (insert_cmp cmp) xs []"


section \<open>Backoff executor (\<open>UploadService.retry\<close>)\<close>

text \<open>
  The operation \<open>fn\<close> is given by the outcome of each of its invocations: \<open>fn k\<close>
  is what the \<open>k\<close>-th call does, \<open>Inl e\<close> when it throws \<open>e\<close> and \<open>Inr v\<close> when it
  resolves to \<open>v\<close>. The executor's result records what it returns or throws
  (\<open>lastError\<close> is \<open>None\<close> while still \<open>undefined\<close>), how often it invoked the
  operation, and the delays it waited, in order.
\<close>

record ('e, 'a) retry_result =
  outcome :: "'e option + 'a"
  invocations :: nat
  waits :: "nat list"

function retry_loop ::
  "(nat \<Rightarrow> 'e + 'a) \<Rightarrow> nat \<Rightarrow> nat \<Rightarrow> nat \<Rightarrow> 'e option \<Rightarrow> nat \<Rightarrow> nat list
     \<Rightarrow> ('e, 'a) retry_result" where
  "retry_loop fn maxRetries delayMs attempt lastError calls waited =
     (if attempt \<le> maxRetries then
        (case fn (Suc calls) of
           Inr v \<Rightarrow> \<lparr>outcome = Inr v, invocations = Suc calls, waits = waited\<rparr>
         | Inl error \<Rightarrow>
             retry_loop fn maxRetries delayMs (Suc attempt) (Some error) (Suc calls)
               (if attempt < maxRetries
                then waited @ [delayMs * 2 ^ (attempt - 1)]
                else waited))
      else \<lparr>outcome = Inl lastError, invocations = calls, waits = waited\<rparr>)"
  by pat_completeness auto
termination
  by (relation "measure (\<lambda>(fn, maxRetries, delayMs, attempt, rest). Suc maxRetries - attempt)") auto

declare retry_loop.simps [simp del]

definition retry :: "(nat \<Rightarrow> 'e + 'a) \<Rightarrow> nat \<Rightarrow> nat \<Rightarrow> ('e, 'a) retry_result" where
  "retry fn maxRetries delayMs = retry_loop fn maxRetries delayMs 1 None 0 []"


section \<open>Dedup window (\<open>recentNewsUrls\<close>, \<open>trackNewsUrl\<close>)\<close>

text \<open>
  The window is the array \<open>recentNewsUrls\<close>; its entries are whatever was pushed,
  so an entry is a nullable string. \<open>track\<close> is the body of \<open>trackNewsUrl\<close> with
  the constant \<open>MAX_RECENT\<close> as a parameter.
\<close>

definition MAX_RECENT :: nat where
  "MAX_RECENT = 30"

definition track :: "nat \<Rightarrow> string option \<Rightarrow> string option list \<Rightarrow> string option list" where
  "track cap url recent =
     (if truthy url then
        (let pushed = recent @ [url]
         in if length pushed > cap then tl pushed else pushed)
      else recent)"

definition trackNewsUrl :: "string option \<Rightarrow> string option list \<Rightarrow> string option list" where
  "trackNewsUrl url recent = track MAX_RECENT url recent"

fun trackAll :: "nat \<Rightarrow> string option list \<Rightarrow> string option list \<Rightarrow> string option list" where
  \<comment> \<open>A sequence of record operations, applied in order.\<close>
  "trackAll cap [] recent = recent"
| "trackAll cap (u # us) recent = trackAll cap us (track cap u recent)"

definition includes_url :: "string option list \<Rightarrow> string option \<Rightarrow> bool" where
  \<comment> \<open>\<open>recentNewsUrls.includes(url)\<close>.\<close>
  "includes_url recent url = (url \<in> set recent)"


section \<open>Relevance scorer and candidate selection (\<open>SuperteamEarnAgent\<close>)\<close>

record listing =
  listing_id :: string
  listing_title :: "string option"
  listing_description :: "string option"
  listing_slug :: "string option"

definition CAPABILITY_KEYWORDS :: "(string \<times> string list) list" where
  "CAPABILITY_KEYWORDS =
     [(''image'', [''image'', ''design'', ''graphic'', ''visual'', ''banner'', ''logo'',
                   ''illustration'', ''creative'', ''art'']),
      (''video'', [''video'', ''animation'', ''motion'', ''clip'']),
      (''defi'', [''defi'', ''token'', ''trading'', ''analytics'', ''pumpfun'', ''dex'',
                  ''swap'', ''market'']),
      (''ai'', [''ai'', ''artificial intelligence'', ''machine learning'', ''generate'',
                ''generation'']),
      (''solana'', [''solana'', ''spl'', ''sol'', ''blockchain'', ''web3'', ''on-chain'']),
      (''agent'', [''agent'', ''autonomous'', ''bot'', ''automation'']),
      (''content'', [''content'', ''write'', ''article'', ''blog'', ''newsletter'', ''news'',
                     ''social media''])]"

fun matchKeywords :: "string \<Rightarrow> string list \<Rightarrow> bool" where
  \<comment> \<open>The inner loop over one category's keywords: true when it leaves by \<open>break\<close>.\<close>
  "matchKeywords text [] = False"
| "matchKeywords text (kw # kws) =
     (if includes_str text kw then True else matchKeywords text kws)"

fun scoreLoop ::
  "string \<Rightarrow> (string \<times> string list) list \<Rightarrow> nat \<times> string list \<Rightarrow> nat \<times> string list" where
  \<comment> \<open>The outer loop, carrying \<open>score\<close> and \<open>matchedCategories\<close>.\<close>
  "scoreLoop text [] acc = acc"
| "scoreLoop text ((category, keywords) # rest) (score, matchedCategories) =
     (if matchKeywords text keywords
      then scoreLoop text rest (score + 1, matchedCategories @ [category])
      else scoreLoop text rest (score, matchedCategories))"

definition listingText :: "listing \<Rightarrow> string" where
  "listingText l =
     toLowerCase (or_str (listing_title l) [] @ '' '' @ or_str (listing_description l) []
                  @ '' '' @ or_str (listing_slug l) [])"

definition scoreText :: "(string \<times> string list) list \<Rightarrow> string \<Rightarrow> nat \<times> string list" where
  "scoreText table text = scoreLoop text table (0, [])"

definition scoreListing :: "listing \<Rightarrow> nat \<times> string list" where
  "scoreListing l = scoreText CAPABILITY_KEYWORDS (listingText l)"

record candidate =
  listing :: listing
  score :: nat
  matchedCategories :: "string list"

definition scoreAll :: "listing list \<Rightarrow> candidate list" where
  \<comment> \<open>\<open>listings.map(listing => ({...listing, ...this.scoreListing(listing)}))\<close>\<close>
  "scoreAll listings =
     map (\<lambda>l. \<lparr>listing = l, score = fst (scoreListing l),
               matchedCategories = snd (scoreListing l)\<rparr>) listings"

definition byScoreDesc :: "candidate \<Rightarrow> candidate \<Rightarrow> int" where
  \<comment> \<open>\<open>(a, b) => b.score - a.score\<close>\<close>
  "byScoreDesc a b = int (score b) - int (score a)"

definition rank :: "nat \<Rightarrow> string set \<Rightarrow> candidate list \<Rightarrow> candidate list" where
  \<comment> \<open>The filter-filter-sort chain, with the score threshold as a parameter.\<close>
  "rank minScore submittedListings scored =
     js_sort byScoreDesc
       (filter (\<lambda>l. listing_id (listing l) \<notin> submittedListings)
          (filter (\<lambda>l. score l \<ge> minScore) scored))"

definition select :: "nat \<Rightarrow> nat \<Rightarrow> string set \<Rightarrow> candidate list \<Rightarrow> candidate list" where
  \<comment> \<open>The chain followed by \<open>slice(0, maxPerCycle)\<close>.\<close>
  "select minScore maxPerCycle submittedListings scored =
     take maxPerCycle (rank minScore submittedListings scored)"

definition scanCandidates :: "string set \<Rightarrow> listing list \<Rightarrow> candidate list" where
  \<comment> \<open>\<open>candidates\<close> of \<open>scanAndSubmit\<close>: the threshold is the literal 2.\<close>
  "scanCandidates submittedListings listings = rank 2 submittedListings (scoreAll listings)"

definition toSubmit :: "string set \<Rightarrow> listing list \<Rightarrow> candidate list" where
  \<comment> \<open>\<open>candidates.slice(0, 3)\<close>\<close>
  "toSubmit submittedListings listings = take 3 (scanCandidates submittedListings listings)"

datatype submit_outcome =
  SubmitFailed
  | SubmitReturned bool

fun submitLoop ::
  "(string \<Rightarrow> submit_outcome) \<Rightarrow> candidate list \<Rightarrow> nat \<times> string set \<Rightarrow> nat \<times> string set" where
  \<comment> \<open>The loop over \<open>toSubmit\<close>. \<open>submitWork\<close> adds the id to \<open>submittedListings\<close>
      when the request went through and returns the response data (the flag says
      whether it is truthy), or returns \<open>null\<close> when the request failed.\<close>
  "submitLoop submitWork [] acc = acc"
| "submitLoop submitWork (c # cs) (submitted, submittedListings) =
     (case submitWork (listing_id (listing c)) of
        SubmitFailed \<Rightarrow> submitLoop submitWork cs (submitted, submittedListings)
      | SubmitReturned ok \<Rightarrow>
          submitLoop submitWork cs
            (if ok then submitted + 1 else submitted,
             insert (listing_id (listing c)) submittedListings))"

record scan_result =
  submitted :: nat
  scanned :: nat
  candidates :: "nat option"

definition scanAndSubmit ::
  "listing list option \<Rightarrow> (string \<Rightarrow> submit_outcome) \<Rightarrow> string set \<Rightarrow> scan_result \<times> string set" where
  \<comment> \<open>\<open>discovered\<close> is \<open>data?.listings\<close> of the discovery call.\<close>
  "scanAndSubmit discovered submitWork submittedListings =
     (case discovered of
        None \<Rightarrow> (\<lparr>submitted = 0, scanned = 0, candidates = None\<rparr>, submittedListings)
      | Some listings \<Rightarrow>
          if listings = [] then (\<lparr>submitted = 0, scanned = 0, candidates = None\<rparr>, submittedListings)
          else
            (let cands = scanCandidates submittedListings listings;
                 (n, S) = submitLoop submitWork (toSubmit submittedListings listings)
                            (0, submittedListings)
             in (\<lparr>submitted = n, scanned = length listings, candidates = Some (length cands)\<rparr>, S)))"

section \<open>Forum pipelines (the daily-news service)\<close>

subsection \<open>Module state, agent and run records\<close>

definition X_NEWS_ACCOUNTS :: "string list" where
  "X_NEWS_ACCOUNTS = [''solana'', ''dexteraisol'', ''zauthx402'', ''payainetwork'', ''relayaisolana'']"

definition IMAGE_MODELS :: "string list" where
  "IMAGE_MODELS = [''nano-banana'', ''seedream'', ''grok-imagine'']"

record state =
  xNewsIndex :: nat
  modelIndex :: nat
  pumpfunType :: string
  recentNewsUrls :: "string option list"

definition initial :: state where
  \<comment> \<open>The values the module-level variables are initialised with.\<close>
  "initial = \<lparr>xNewsIndex = 0, modelIndex = 0, pumpfunType = ''trending'', recentNewsUrls = []\<rparr>"

record forum_data =
  post_id :: "nat option"

record agent =
  createForumPost :: "string \<Rightarrow> string \<Rightarrow> forum_data option"

text \<open>
  \<open>createForumPost\<close> of the Colosseum agent catches every failure of its request and
  returns \<open>null\<close>, so the agent is the function from title and body to the response
  data, \<open>None\<close> when the request failed. \<open>post_id\<close> is \<open>data.post?.id\<close>.

  A run of a pipeline gives what the promise settles to (\<open>Inl\<close> the message of the
  error it rejects with), the module state after it, the option it selected for
  the cycle, and the calls it made to \<open>agent.createForumPost\<close>.
\<close>

record 'r run =
  returned :: "string + 'r"
  after :: state
  selected :: string
  published :: "(string \<times> string) list"

text \<open>
  The fields every successful result has; \<open>post_type\<close> is its field \<open>type\<close>. A
  pipeline that can return \<open>{ success: false, message, ... }\<close> has a result type
  with a constructor for it, holding the message and the option of the cycle.
\<close>

record post =
  post_type :: string
  title :: string
  body :: string
  forumPostId :: "nat option"

definition postToForum ::
  "agent option \<Rightarrow> string \<Rightarrow> string \<Rightarrow> forum_data option \<times> (string \<times> string) list" where
  "postToForum agent t b =
     (case agent of
        None \<Rightarrow> (None, [])
      | Some a \<Rightarrow> (createForumPost a t b, [(t, b)]))"

definition forumPostIdOf :: "forum_data option \<Rightarrow> nat option" where
  \<comment> \<open>\<open>forumResult?.post?.id || null\<close>\<close>
  "forumPostIdOf forumResult =
     (case forumResult of
        None \<Rightarrow> None
      | Some d \<Rightarrow> (case post_id d of
                    None \<Rightarrow> None
                  | Some i \<Rightarrow> if i = 0 then None else Some i))"

definition selectOption :: "string list \<Rightarrow> nat \<Rightarrow> string option \<Rightarrow> string \<times> nat" where
  \<comment> \<open>\<open>const x = force || OPTIONS[index % OPTIONS.length]; if (!force) index++;\<close>
      gives the option and the index as stored afterwards.\<close>
  "selectOption options index force =
     (or_str force (options ! (index mod length options)),
      if \<not> truthy force then index + 1 else index)"

definition newline :: string where
  "newline = [CHR 0x0A]"

definition dq :: string where
  "dq = [CHR 0x22]"

definition emdash :: string where
  "emdash = [CHR 0xE2, CHR 0x80, CHR 0x94]"

definition satellite :: string where
  "satellite = [CHR 0xF0, CHR 0x9F, CHR 0x93, CHR 0xA1]"

definition palette :: string where
  "palette = [CHR 0xF0, CHR 0x9F, CHR 0x8E, CHR 0xA8]"

definition rocket :: string where
  "rocket = [CHR 0xF0, CHR 0x9F, CHR 0x9A, CHR 0x80]"

definition chart :: string where
  "chart = [CHR 0xF0, CHR 0x9F, CHR 0x93, CHR 0x88]"


subsection \<open>Pipeline 1: X News\<close>

text \<open>
  The responses of the external services during one run, each what the service
  answers to the one request the run makes of it: the parsed answer of the search
  (\<open>Inl\<close> when \<open>callGrokApi\<close> throws, \<open>Inr None\<close> when no JSON is found), the
  clock, the title answer and the banner generation. A date is the timestamp its
  string denotes.
\<close>

record raw_item =
  item_news_url :: "string option"
  item_post_url :: "string option"
  item_url :: "string option"
  item_title :: "string option"
  item_text :: "string option"
  item_tweet_content :: "string option"
  item_content :: "string option"
  item_date :: "int option"
  item_created_at :: "int option"
  item_sentiment :: "string option"

datatype parsed =
  ParsedObject "string option" "raw_item list option"
  | ParsedArray "raw_item list"

record news_item =
  news_url :: "string option"
  news_title :: string
  news_text :: string
  source_name :: string
  news_date :: int
  sentiment :: string

record xnews_env =
  searchResponse :: "string + parsed option"
  now :: int
  titleResponse :: "string + string option"
  bannerResponse :: "string + string option"

definition toNewsItem :: "string \<Rightarrow> int \<Rightarrow> raw_item \<Rightarrow> news_item" where
  "toNewsItem user clock item =
     \<lparr>news_url = js_or (js_or (js_or (item_news_url item) (item_post_url item)) (item_url item)) None,
      news_title = or_str (item_title item) (take 100 (or_str (item_text item) [])),
      news_text = or_str (js_or (js_or (item_text item) (item_tweet_content item)) (item_content item)) [],
      source_name = user,
      news_date = (case item_date item of
                     Some d \<Rightarrow> d
                   | None \<Rightarrow> or_int (item_created_at item) clock),
      sentiment = or_str (item_sentiment item) ''Neutral''\<rparr>"

definition newsArray :: "parsed \<Rightarrow> raw_item list" where
  \<comment> \<open>\<open>Array.isArray(parsed.news) ? parsed.news : (Array.isArray(parsed) ? parsed : [])\<close>\<close>
  "newsArray p =
     (case p of
        ParsedObject profile (Some items) \<Rightarrow> items
      | ParsedObject profile None \<Rightarrow> []
      | ParsedArray items \<Rightarrow> items)"

definition profileOf :: "parsed \<Rightarrow> string option" where
  \<comment> \<open>\<open>if (parsed.profile_image_url) profileImageUrl = parsed.profile_image_url\<close>\<close>
  "profileOf p =
     (case p of
        ParsedObject profile items \<Rightarrow> js_or profile None
      | ParsedArray items \<Rightarrow> None)"

definition fetchLatestNews ::
  "string \<Rightarrow> xnews_env \<Rightarrow> string option list \<Rightarrow> string + (news_item list \<times> string option)" where
  "fetchLatestNews user env recent =
     (case searchResponse env of
        Inl err \<Rightarrow> Inl err
      | Inr response \<Rightarrow>
          (let (newsItems, profileImageUrl) =
                 (case response of
                    None \<Rightarrow> ([], None)
                  | Some p \<Rightarrow>
                      (filter (\<lambda>item. length (news_text item) > 0)
                         (map (toNewsItem user (now env)) (newsArray p)),
                       profileOf p))
           in Inr (filter (\<lambda>item. \<not> includes_url recent (news_url item)) newsItems,
                   profileImageUrl)))"

definition generateNewsTitle :: "news_item \<Rightarrow> xnews_env \<Rightarrow> string" where
  "generateNewsTitle topNews env =
     (let fallback =
            join '' '' (take 4 (split_on (CHR '' '')
              (or_str (Some (news_title topNews))
                 (or_str (Some (news_text topNews)) ''News Update''))))
      in case titleResponse env of
           Inl e \<Rightarrow> fallback
         | Inr t \<Rightarrow> or_str t fallback)"

definition generateNewsBanner :: "xnews_env \<Rightarrow> string option" where
  "generateNewsBanner env =
     (case bannerResponse env of
        Inl e \<Rightarrow> None
      | Inr image_url \<Rightarrow> image_url)"

definition byDateDesc :: "news_item \<Rightarrow> news_item \<Rightarrow> int" where
  \<comment> \<open>\<open>(a, b) => new Date(b.date) - new Date(a.date)\<close>\<close>
  "byDateDesc a b = news_date b - news_date a"

record xnews_post = post +
  username :: string
  bannerUrl :: "string option"
  newsSource :: "string option"

datatype xnews_result =
  NoNews string string
  | XNewsPosted xnews_post

definition xNewsTitle :: "string \<Rightarrow> string \<Rightarrow> string" where
  "xNewsTitle user t = satellite @ '' Latest from @'' @ user @ '': '' @ t"

definition xNewsBody :: "string \<Rightarrow> string \<Rightarrow> news_item \<Rightarrow> string option \<Rightarrow> string" where
  "xNewsBody user t topNews banner =
     join newline (filterBoolean
       [''## '' @ t,
        [],
        news_text topNews,
        [],
        (case banner of
           None \<Rightarrow> []
         | Some b \<Rightarrow> if b \<noteq> [] then ''![News Banner]('' @ b @ '')'' else []),
        [],
        ''**Source:** '' @ or_str (news_url topNews) (''https://x.com/'' @ user),
        ''**Sentiment:** '' @ sentiment topNews,
        [],
        ''---'',
        ''*Autonomously curated by Xona Agent '' @ emdash
          @ '' fetching latest Solana ecosystem news from X*''])"

definition xNewsBegin :: "string option \<Rightarrow> state \<Rightarrow> string \<times> state" where
  \<comment> \<open>The first two statements of \<open>runXNewsPost\<close>, which run before its first \<open>await\<close>.\<close>
  "xNewsBegin forceAccount s =
     (let (user, index) = selectOption X_NEWS_ACCOUNTS (xNewsIndex s) forceAccount
      in (user, s\<lparr>xNewsIndex := index\<rparr>))"

definition xNewsRest :: "agent option \<Rightarrow> xnews_env \<Rightarrow> string \<times> state \<Rightarrow> xnews_result run" where
  "xNewsRest agent env begun =
     (let (user, s) = begun
      in case fetchLatestNews user env (recentNewsUrls s) of
           Inl err \<Rightarrow> \<lparr>returned = Inl err, after = s, selected = user, published = []\<rparr>
         | Inr (newsItems, profileImageUrl) \<Rightarrow>
             if length newsItems = 0
             then \<lparr>returned = Inr (NoNews (''No news found for @'' @ user) user),
                   after = s, selected = user, published = []\<rparr>
             else
               (let topNews = hd (js_sort byDateDesc newsItems);
                    t = generateNewsTitle topNews env;
                    banner = generateNewsBanner env;
                    forumTitle = xNewsTitle user t;
                    forumBody = xNewsBody user t topNews banner;
                    (forumResult, calls) = postToForum agent forumTitle forumBody;
                    s' = s\<lparr>recentNewsUrls := trackNewsUrl (news_url topNews) (recentNewsUrls s)\<rparr>
                in \<lparr>returned = Inr (XNewsPosted
                       \<lparr>post_type = ''x_news'', title = forumTitle, body = forumBody,
                        forumPostId = forumPostIdOf forumResult, username = user,
                        bannerUrl = banner, newsSource = news_url topNews\<rparr>),
                    after = s', selected = user, published = calls\<rparr>))"

definition runXNewsPost ::
  "agent option \<Rightarrow> string option \<Rightarrow> xnews_env \<Rightarrow> state \<Rightarrow> xnews_result run" where
  "runXNewsPost agent forceAccount env s = xNewsRest agent env (xNewsBegin forceAccount s)"

definition previewXNews :: "string option \<Rightarrow> xnews_env \<Rightarrow> state \<Rightarrow> xnews_result run" where
  "previewXNews forceAccount env s = runXNewsPost None forceAccount env s"

subsection \<open>Pipeline 2: Image Showcase\<close>

text \<open>
  The responses during one run: the index drawn by
  \<open>Math.floor(Math.random() * themes.length)\<close>, the prompt answer, the generated
  image (\<open>generateImage\<close> throws or gives the image URL) and the review answer.
\<close>

record showcase_env =
  themeRandom :: nat
  promptResponse :: "string + string option"
  imageResponse :: "string + string"
  reviewResponse :: "string + string option"

definition themes :: "string list" where
  "themes =
     [''Solana ecosystem'', ''DeFi innovation'', ''blockchain technology'',
      ''AI and crypto convergence'', ''meme culture in crypto'', ''digital art'',
      ''futuristic finance'', ''web3 identity'', ''on-chain creativity'',
      ''token launch energy'', ''Solana speed'', ''decentralized future'']"

definition modelNames :: "(string \<times> string) list" where
  "modelNames =
     [(''nano-banana'', ''Google Nano Banana''),
      (''seedream'', ''ByteDance Seedream 4.5''),
      (''grok-imagine'', ''xAI Grok Imagine'')]"

definition modelNameOf :: "string \<Rightarrow> string" where
  \<comment> \<open>\<open>modelNames[modelKey] || modelKey\<close>\<close>
  "modelNameOf modelKey = or_str (map_of modelNames modelKey) modelKey"

definition generateCreativePrompt :: "showcase_env \<Rightarrow> string \<times> string" where
  \<comment> \<open>Returns the prompt and the theme.\<close>
  "generateCreativePrompt env =
     (let theme = (if themeRandom env < length themes then themes ! themeRandom env
                   else ''undefined'');
          fallback = ''A breathtaking visualization of '' @ theme
            @ '' with neon gradients, glowing particles, and futuristic elements in a cinematic 4K style''
      in case promptResponse env of
           Inl e \<Rightarrow> (fallback, theme)
         | Inr p \<Rightarrow> (or_str p fallback, theme))"

definition generateModelReview :: "string \<Rightarrow> string \<Rightarrow> showcase_env \<Rightarrow> string" where
  "generateModelReview modelKey theme env =
     (let modelName = modelNameOf modelKey;
          fallback = ''Generated with '' @ modelName @ ''. The model handles the '' @ dq @ theme @ dq
            @ '' theme well, producing vivid colors and coherent composition. Detail level is solid for the prompt complexity. Overall a strong showing of current AI image generation capabilities.''
      in case reviewResponse env of
           Inl e \<Rightarrow> fallback
         | Inr r \<Rightarrow> or_str r fallback)"

record showcase_post = post +
  model :: string
  modelName :: string
  theme :: string
  prompt :: string
  imageUrl :: string
  review :: string

definition showcaseTitle :: "string \<Rightarrow> string \<Rightarrow> string" where
  "showcaseTitle name th =
     palette @ '' AI Image Showcase: '' @ name @ '' '' @ emdash @ '' '' @ dq @ th @ dq"

definition showcaseBody :: "string \<Rightarrow> string \<Rightarrow> string \<Rightarrow> string \<Rightarrow> string \<Rightarrow> string \<Rightarrow> string" where
  "showcaseBody modelKey name th p img rv =
     join newline
       [''## '' @ name @ '' '' @ emdash @ '' Image Generation Review'',
        [],
        ''![Generated Image]('' @ img @ '')'',
        [],
        ''**Prompt:** '' @ dq @ p @ dq,
        [],
        ''**Model:** '' @ name,
        ''**Theme:** '' @ th,
        [],
        ''### Review'',
        [],
        rv,
        [],
        ''---'',
        ''Want to generate your own? Use our free API:'',
        ''```'',
        ''POST /generate-image'',
        ''{ '' @ dq @ ''prompt'' @ dq @ '': '' @ dq @ take 80 p @ ''...'' @ dq @ '', ''
          @ dq @ ''model'' @ dq @ '': '' @ dq @ modelKey @ dq @ '' }'',
        ''```'',
        [],
        ''*Autonomously generated by Xona Agent '' @ emdash @ '' showcasing AI model capabilities*'']"

definition showcaseBegin :: "string option \<Rightarrow> state \<Rightarrow> string \<times> state" where
  \<comment> \<open>The first two statements of \<open>runImageShowcase\<close>.\<close>
  "showcaseBegin forceModel s =
     (let (modelKey, index) = selectOption IMAGE_MODELS (modelIndex s) forceModel
      in (modelKey, s\<lparr>modelIndex := index\<rparr>))"

definition showcaseRest ::
  "agent option \<Rightarrow> showcase_env \<Rightarrow> string \<times> state \<Rightarrow> showcase_post run" where
  "showcaseRest agent env begun =
     (let (modelKey, s) = begun;
          name = modelNameOf modelKey;
          (p, th) = generateCreativePrompt env
      in case imageResponse env of
           Inl err \<Rightarrow> \<lparr>returned = Inl err, after = s, selected = modelKey, published = []\<rparr>
         | Inr image_url \<Rightarrow>
             (let rv = generateModelReview modelKey th env;
                  forumTitle = showcaseTitle name th;
                  forumBody = showcaseBody modelKey name th p image_url rv;
                  (forumResult, calls) = postToForum agent forumTitle forumBody
              in \<lparr>returned = Inr
                     \<lparr>post_type = ''image_showcase'', title = forumTitle, body = forumBody,
                      forumPostId = forumPostIdOf forumResult, model = modelKey,
                      modelName = name, theme = th, prompt = p, imageUrl = image_url,
                      review = rv\<rparr>,
                  after = s, selected = modelKey, published = calls\<rparr>))"

definition runImageShowcase ::
  "agent option \<Rightarrow> string option \<Rightarrow> showcase_env \<Rightarrow> state \<Rightarrow> showcase_post run" where
  "runImageShowcase agent forceModel env s = showcaseRest agent env (showcaseBegin forceModel s)"

definition previewImageShowcase :: "string option \<Rightarrow> showcase_env \<Rightarrow> state \<Rightarrow> showcase_post run" where
  "previewImageShowcase forceModel env s = runImageShowcase None forceModel env s"

subsection \<open>Pipeline 3: PumpFun Intel\<close>

text \<open>
  The responses during one run: what \<open>getTrending(10)\<close> and \<open>getMovers(10)\<close>
  resolve to (\<open>Inl\<close> when they throw) and the two readings of the clock, as ISO
  strings. Numbers that are only printed are given by their printed form.
\<close>

record token =
  token_name :: "string option"
  ticker :: "string option"
  mc :: "string option"
  pricechange5m :: "string option"
  pricechange1h :: "string option"
  pricechange6h :: "string option"
  pricechange24h :: "string option"
  ca :: "string option"
  icon :: "string option"
  icon_description :: "string option"
  social_twitter :: "string option"
  social_website :: "string option"

record pump_data =
  trending_tokens :: "token list option"
  movers_tokens :: "token list option"
  data_summary :: "string option"
  data_suggestions :: "string list option"

record pumpfun_env =
  trendingResponse :: "string + pump_data"
  moversResponse :: "string + pump_data"
  isoForTitle :: string
  isoForBody :: string

definition template :: "string option \<Rightarrow> string" where
  \<comment> \<open>A nullable value inside a template literal.\<close>
  "template v = (case v of None \<Rightarrow> ''undefined'' | Some s \<Rightarrow> s)"

definition whenTruthy :: "string option \<Rightarrow> (string \<Rightarrow> string) \<Rightarrow> string" where
  \<comment> \<open>\<open>v ? line(v) : null\<close>, the \<open>null\<close> being dropped by \<open>filter(Boolean)\<close> like an empty line.\<close>
  "whenTruthy v line = (case v of None \<Rightarrow> [] | Some s \<Rightarrow> if s \<noteq> [] then line s else [])"

definition priceChanges :: "token \<Rightarrow> string list" where
  "priceChanges t =
     (case pricechange5m t of None \<Rightarrow> [] | Some v \<Rightarrow> [''5m: '' @ v @ ''%''])
     @ (case pricechange1h t of None \<Rightarrow> [] | Some v \<Rightarrow> [''1h: '' @ v @ ''%''])
     @ (case pricechange6h t of None \<Rightarrow> [] | Some v \<Rightarrow> [''6h: '' @ v @ ''%''])
     @ (case pricechange24h t of None \<Rightarrow> [] | Some v \<Rightarrow> [''24h: '' @ v @ ''%''])"

definition formatTokenMarkdown :: "token \<Rightarrow> nat \<Rightarrow> string" where
  "formatTokenMarkdown t index =
     join newline (filterBoolean
       [''### '' @ string_of_nat (index + 1) @ ''. '' @ or_str (token_name t) ''Unknown''
          @ '' ($'' @ or_str (ticker t) ''???'' @ '')'',
        [],
        ''- **Market Cap:** '' @ or_str (mc t) ''N/A'',
        (if length (priceChanges t) > 0
         then ''- **Price Changes:** '' @ join '' | '' (priceChanges t) else []),
        whenTruthy (ca t) (\<lambda>v. ''- **CA:** `'' @ v @ ''`''),
        whenTruthy (icon t) (\<lambda>v. ''- **Icon:** !['' @ template (ticker t) @ '']('' @ v @ '')''),
        whenTruthy (icon_description t) (\<lambda>v. ''- **Icon Description:** '' @ v),
        whenTruthy (social_twitter t) (\<lambda>v. ''- **Twitter:** '' @ v),
        whenTruthy (social_website t) (\<lambda>v. ''- **Website:** '' @ v)])"

record pumpfun_post = post +
  label :: string
  summary :: "string option"
  suggestions :: "string list option"
  tokenCount :: nat

datatype pumpfun_result =
  NoData string string
  | PumpFunPosted pumpfun_post

definition pumpFunTitle :: "string \<Rightarrow> string \<Rightarrow> string \<Rightarrow> string" where
  "pumpFunTitle emoji lbl stamp =
     emoji @ '' PumpFun '' @ lbl @ '' '' @ emdash @ '' '' @ hd (split_on (CHR ''T'') stamp)"

definition pumpFunBody ::
  "string \<Rightarrow> string \<Rightarrow> string \<Rightarrow> string \<Rightarrow> pump_data \<Rightarrow> token list \<Rightarrow> string" where
  "pumpFunBody emoji lbl type stamp d tokens =
     join newline (filterBoolean
       [''## '' @ emoji @ '' PumpFun '' @ lbl,
        ''*Updated: '' @ stamp @ ''*'',
        [],
        ''### AI Analysis'',
        [],
        or_str (data_summary d) ''No summary available.'',
        [],
        (case data_suggestions d of
           None \<Rightarrow> []
         | Some ss \<Rightarrow>
             if length ss > 0
             then ''### Suggestions'' @ newline @ newline @ join newline (map (\<lambda>s. ''- '' @ s) ss)
             else []),
        [],
        ''### Token List ('' @ string_of_nat (length tokens) @ '')'',
        [],
        join (newline @ newline) (map (\<lambda>(i, t). formatTokenMarkdown t i) (enumerate 0 tokens)),
        [],
        ''---'',
        ''*Data sourced from PumpFun + DexScreener, enriched with AI analysis by Xona Agent*'',
        [],
        ''Want real-time data? Use our free API:'',
        ''```'',
        ''GET /pumpfun/'' @ type @ ''?limit=10'',
        ''```''])"

definition pumpFunBegin :: "string option \<Rightarrow> state \<Rightarrow> string \<times> state" where
  \<comment> \<open>The first two statements of \<open>runPumpFunPost\<close>.\<close>
  "pumpFunBegin forceType s =
     (or_str forceType (pumpfunType s),
      if \<not> truthy forceType
      then s\<lparr>pumpfunType := (if pumpfunType s = ''trending'' then ''movers'' else ''trending'')\<rparr>
      else s)"

definition pumpFunRest ::
  "agent option \<Rightarrow> pumpfun_env \<Rightarrow> string \<times> state \<Rightarrow> pumpfun_result run" where
  "pumpFunRest agent env begun =
     (let (type, s) = begun;
          isTrending = (type = ''trending'');
          lbl = (if isTrending then ''Trending Tokens'' else ''Top Movers'')
      in case (if isTrending then trendingResponse env else moversResponse env) of
           Inl err \<Rightarrow> \<lparr>returned = Inl err, after = s, selected = type, published = []\<rparr>
         | Inr d \<Rightarrow>
             (case (if isTrending then trending_tokens d else movers_tokens d) of
                None \<Rightarrow> \<lparr>returned = Inr (NoData (''No '' @ lbl @ '' data available'') type),
                          after = s, selected = type, published = []\<rparr>
              | Some tokens \<Rightarrow>
                  if length tokens = 0
                  then \<lparr>returned = Inr (NoData (''No '' @ lbl @ '' data available'') type),
                        after = s, selected = type, published = []\<rparr>
                  else
                    (let emoji = (if isTrending then rocket else chart);
                         forumTitle = pumpFunTitle emoji lbl (isoForTitle env);
                         forumBody = pumpFunBody emoji lbl type (isoForBody env) d tokens;
                         (forumResult, calls) = postToForum agent forumTitle forumBody
                     in \<lparr>returned = Inr (PumpFunPosted
                            \<lparr>post_type = ''pumpfun_'' @ type, title = forumTitle,
                             body = forumBody, forumPostId = forumPostIdOf forumResult,
                             label = lbl, summary = data_summary d,
                             suggestions = data_suggestions d, tokenCount = length tokens\<rparr>),
                         after = s, selected = type, published = calls\<rparr>)))"

definition runPumpFunPost ::
  "agent option \<Rightarrow> string option \<Rightarrow> pumpfun_env \<Rightarrow> state \<Rightarrow> pumpfun_result run" where
  "runPumpFunPost agent forceType env s = pumpFunRest agent env (pumpFunBegin forceType s)"

definition previewPumpFun :: "string option \<Rightarrow> pumpfun_env \<Rightarrow> state \<Rightarrow> pumpfun_result run" where
  "previewPumpFun forceType env s = runPumpFunPost None forceType env s"


subsection \<open>Cron handlers (\<open>startCron\<close>)\<close>

text \<open>
  \<open>startCron\<close> registers one handler per pipeline with \<open>cron.schedule\<close>. A
  handler calls the run function of its pipeline with the stored agent and no
  forced option, and logs a rejection; neither the handlers nor the module keep a
  flag that says whether a run is under way. The cron library is taken to call
  the handler at every matching time. The call executes the run function up to its
  first \<open>await\<close> at once; the invocation is then in flight until its continuation
  has run. The scheduler state keeps the module state together with the
  invocations in flight, each with the option it selected. \<open>trigger\<close> is the
  firing of a handler, \<open>settle\<close> the completion of the oldest invocation in
  flight of a pipeline under the responses given, its continuation taken as one
  step.
\<close>

datatype pipeline = XNews | Showcase | PumpFun

datatype responses =
  XNewsResponses xnews_env
  | ShowcaseResponses showcase_env
  | PumpFunResponses pumpfun_env

record scheduler =
  store :: state
  inflight :: "(pipeline \<times> string) list"

definition started :: scheduler where
  "started = \<lparr>store = initial, inflight = []\<rparr>"

definition begin_run :: "pipeline \<Rightarrow> state \<Rightarrow> string \<times> state" where
  "begin_run p s =
     (case p of
        XNews \<Rightarrow> xNewsBegin None s
      | Showcase \<Rightarrow> showcaseBegin None s
      | PumpFun \<Rightarrow> pumpFunBegin None s)"

definition trigger :: "pipeline \<Rightarrow> scheduler \<Rightarrow> scheduler" where
  "trigger p sc =
     (let (opt, s) = begin_run p (store sc)
      in \<lparr>store = s, inflight = inflight sc @ [(p, opt)]\<rparr>)"

definition running :: "pipeline \<Rightarrow> scheduler \<Rightarrow> nat" where
  \<comment> \<open>How many invocations of the pipeline are in flight.\<close>
  "running p sc = length (filter (\<lambda>(q, opt). q = p) (inflight sc))"

fun takeOldest ::
  "pipeline \<Rightarrow> (pipeline \<times> string) list \<Rightarrow> (string \<times> (pipeline \<times> string) list) option" where
  "takeOldest p [] = None"
| "takeOldest p ((q, opt) # rest) =
     (if q = p then Some (opt, rest)
      else (case takeOldest p rest of
              None \<Rightarrow> None
            | Some (found, others) \<Rightarrow> Some (found, (q, opt) # others)))"

definition pipelineOf :: "responses \<Rightarrow> pipeline" where
  "pipelineOf r =
     (case r of
        XNewsResponses env \<Rightarrow> XNews
      | ShowcaseResponses env \<Rightarrow> Showcase
      | PumpFunResponses env \<Rightarrow> PumpFun)"

definition settle ::
  "agent option \<Rightarrow> responses \<Rightarrow> scheduler \<Rightarrow> scheduler \<times> (string \<times> string) list" where
  "settle agent r sc =
     (case takeOldest (pipelineOf r) (inflight sc) of
        None \<Rightarrow> (sc, [])
      | Some (opt, others) \<Rightarrow>
          (case r of
             XNewsResponses env \<Rightarrow>
               (let out = xNewsRest agent env (opt, store sc)
                in (\<lparr>store = after out, inflight = others\<rparr>, published out))
           | ShowcaseResponses env \<Rightarrow>
               (let out = showcaseRest agent env (opt, store sc)
                in (\<lparr>store = after out, inflight = others\<rparr>, published out))
           | PumpFunResponses env \<Rightarrow>
               (let out = pumpFunRest agent env (opt, store sc)
                in (\<lparr>store = after out, inflight = others\<rparr>, published out))))"

subsection \<open>Successive scheduled runs\<close>

text \<open>
  \<open>rotation\<close> lists the options chosen by \<open>n\<close> successive selections without a
  forced option, starting from a stored index. \<open>xNewsCycles\<close> and \<open>showcaseCycles\<close>
  run a pipeline once per given set of responses, each run starting from the state
  the previous one left, and list the options the runs selected.
\<close>

fun rotation :: "string list \<Rightarrow> nat \<Rightarrow> nat \<Rightarrow> string list" where
  "rotation options index 0 = []"
| "rotation options index (Suc n) =
     (let (opt, index') = selectOption options index None
      in opt # rotation options index' n)"

fun xNewsCycles :: "agent option \<Rightarrow> xnews_env list \<Rightarrow> state \<Rightarrow> string list \<times> state" where
  "xNewsCycles agent [] s = ([], s)"
| "xNewsCycles agent (env # envs) s =
     (let out = runXNewsPost agent None env s;
          (rest, s') = xNewsCycles agent envs (after out)
      in (selected out # rest, s'))"

fun showcaseCycles :: "agent option \<Rightarrow> showcase_env list \<Rightarrow> state \<Rightarrow> string list \<times> state" where
  "showcaseCycles agent [] s = ([], s)"
| "showcaseCycles agent (env # envs) s =
     (let out = runImageShowcase agent None env s;
          (rest, s') = showcaseCycles agent envs (after out)
      in (selected out # rest, s'))"

subsection \<open>Sample inputs\<close>

text \<open>Concrete responses, agents and listings at which the theorems below are evaluated.\<close>

definition sample_item :: raw_item where
  "sample_item =
     \<lparr>item_news_url = Some ''https://x.com/solana/status/1'', item_post_url = None,
      item_url = None, item_title = Some ''Solana ships'', item_text = Some ''Big release'',
      item_tweet_content = None, item_content = None, item_date = Some 100,
      item_created_at = None, item_sentiment = Some ''Positive''\<rparr>"

definition sample_item_no_url :: raw_item where
  "sample_item_no_url =
     \<lparr>item_news_url = None, item_post_url = None, item_url = Some [],
      item_title = None, item_text = Some ''Validator update is out'',
      item_tweet_content = None, item_content = None, item_date = None,
      item_created_at = Some 200, item_sentiment = None\<rparr>"

definition sample_env :: xnews_env where
  "sample_env =
     \<lparr>searchResponse = Inr (Some (ParsedArray [sample_item])), now = 500,
      titleResponse = Inr (Some ''Solana Ships''), bannerResponse = Inl ''no image''\<rparr>"

definition sample_env_no_url :: xnews_env where
  "sample_env_no_url =
     \<lparr>searchResponse = Inr (Some (ParsedObject None (Some [sample_item_no_url]))), now = 500,
      titleResponse = Inl ''timeout'', bannerResponse = Inr (Some ''https://cdn/b.jpg'')\<rparr>"

definition sample_agent :: agent where
  "sample_agent = \<lparr>createForumPost = (\<lambda>t b. Some \<lparr>post_id = Some 42\<rparr>)\<rparr>"

definition failing_agent :: agent where
  "failing_agent = \<lparr>createForumPost = (\<lambda>t b. None)\<rparr>"

definition sample_showcase_env :: showcase_env where
  "sample_showcase_env =
     \<lparr>themeRandom = 3, promptResponse = Inr (Some ''A neon city''),
      imageResponse = Inr ''https://cdn/i.jpg'', reviewResponse = Inr None\<rparr>"

definition sample_token :: token where
  "sample_token =
     \<lparr>token_name = Some ''Dog'', ticker = Some ''DOG'', mc = Some ''$1M'',
      pricechange5m = Some ''1.5'', pricechange1h = None, pricechange6h = None,
      pricechange24h = Some ''-3'', ca = Some ''abc'', icon = None, icon_description = None,
      social_twitter = None, social_website = None\<rparr>"

definition sample_pumpfun_env :: pumpfun_env where
  "sample_pumpfun_env =
     \<lparr>trendingResponse = Inr \<lparr>trending_tokens = Some [sample_token], movers_tokens = None,
                              data_summary = Some ''Hot'', data_suggestions = None\<rparr>,
      moversResponse = Inl ''service unavailable'',
      isoForTitle = ''2026-01-02T03:04:05.000Z'', isoForBody = ''2026-01-02T03:04:05.001Z''\<rparr>"

definition listing_a :: listing where
  "listing_a = \<lparr>listing_id = ''a'', listing_title = Some ''Video bot for DEX blog with logo'',
                 listing_description = None, listing_slug = None\<rparr>"

definition listing_b :: listing where
  "listing_b = \<lparr>listing_id = ''b'', listing_title = Some ''Logo'',
                 listing_description = Some ''clip, swap, bot, blog'', listing_slug = None\<rparr>"

definition listing_c :: listing where
  "listing_c = \<lparr>listing_id = ''c'', listing_title = Some ''Video clip logo dex'',
                 listing_description = None, listing_slug = Some ''x''\<rparr>"

definition listing_d :: listing where
  "listing_d = \<lparr>listing_id = ''d'', listing_title = Some ''Design a logo'',
                 listing_description = None, listing_slug = None\<rparr>"

definition sample_post :: xnews_post where
  \<comment> \<open>What the X News pipeline returns for \<open>sample_env\<close> and \<open>sample_agent\<close>.\<close>
  "sample_post =
     \<lparr>post_type = ''x_news'',
      title = satellite @ '' Latest from @solana: Solana Ships'',
      body = join newline
        [''## Solana Ships'',
         ''Big release'',
         ''**Source:** https://x.com/solana/status/1'',
         ''**Sentiment:** Positive'',
         ''---'',
         ''*Autonomously curated by Xona Agent '' @ emdash
           @ '' fetching latest Solana ecosystem news from X*''],
      forumPostId = Some 42,
      username = ''solana'',
      bannerUrl = None,
      newsSource = Some ''https://x.com/solana/status/1''\<rparr>"

section \<open>Shared lemmas\<close>

subsection \<open>The window under \<open>track\<close>\<close>

lemma track_falsy: "\<not> truthy u \<Longrightarrow> track cap u w = w"
  by (simp add: track_def)

lemma track_step:
  "length w \<le> cap \<Longrightarrow> truthy u \<Longrightarrow> track cap u w = drop (Suc (length w) - cap) (w @ [u])"
  by (cases w) (auto simp add: track_def Let_def Suc_diff_le drop_Cons')

lemma track_length: "length w \<le> cap \<Longrightarrow> length (track cap u w) \<le> cap"
  by (auto simp add: track_def Let_def)

lemma track_truthy: "\<forall>v \<in> set w. truthy v \<Longrightarrow> \<forall>v \<in> set (track cap u w). truthy v"
  by (cases w) (auto simp add: track_def Let_def)

lemma drop_drop_append:
  "k \<le> length xs \<Longrightarrow> drop n (drop k xs @ ys) = drop (n + k) (xs @ ys)"
  by (simp add: add.commute)

lemma trackAll_window:
  "length w \<le> cap \<Longrightarrow>
   trackAll cap us w = drop (length (w @ filter truthy us) - cap) (w @ filter truthy us)"
proof (induction us arbitrary: w)
  case Nil
  then show ?case by simp
next
  case (Cons u us)
  show ?case
  proof (cases "truthy u")
    case False
    then show ?thesis using Cons by (simp add: track_falsy)
  next
    case True
    let ?k = "Suc (length w) - cap"
    have len: "length (track cap u w) \<le> cap" using Cons.prems by (rule track_length)
    have t: "track cap u w = drop ?k (w @ [u])"
      using True Cons.prems by (rule track_step [rotated])
    have k: "?k \<le> length (w @ [u])" by simp
    have "trackAll cap (u # us) w = trackAll cap us (track cap u w)" by simp
    also have "\<dots> = drop (length (track cap u w @ filter truthy us) - cap)
                      (track cap u w @ filter truthy us)"
      using Cons.IH [OF len] .
    also have "\<dots> = drop (length (track cap u w @ filter truthy us) - cap + ?k)
                      ((w @ [u]) @ filter truthy us)"
      unfolding t using k by (rule drop_drop_append)
    also have "length (track cap u w @ filter truthy us) - cap + ?k
          = length (w @ filter truthy (u # us)) - cap"
      unfolding t using True Cons.prems by auto
    finally show ?thesis using True by simp
  qed
qed

lemma trackAll_truthy:
  "\<forall>v \<in> set w. truthy v \<Longrightarrow> \<forall>v \<in> set (trackAll cap us w). truthy v"
proof (induction us arbitrary: w)
  case Nil
  then show ?case by simp
next
  case (Cons u us)
  have "\<forall>v \<in> set (track cap u w). truthy v" using Cons.prems by (rule track_truthy)
  then show ?case using Cons.IH by simp
qed

subsection \<open>Sorting and the X News run\<close>

lemma insert_cmp_set: "set (insert_cmp cmp x ys) = insert x (set ys)"
  by (induction ys) auto

lemma js_sort_set: "set (js_sort cmp xs) = set xs"
  by (induction xs) (simp_all add: js_sort_def insert_cmp_set)

lemma insert_cmp_length: "length (insert_cmp cmp x ys) = Suc (length ys)"
  by (induction ys) auto

lemma js_sort_length: "length (js_sort cmp xs) = length xs"
  by (induction xs) (simp_all add: js_sort_def insert_cmp_length)

lemma hd_js_sort_in: "xs \<noteq> [] \<Longrightarrow> hd (js_sort cmp xs) \<in> set xs"
proof -
  assume "xs \<noteq> []"
  then have "js_sort cmp xs \<noteq> []" using js_sort_length [of cmp xs] by auto
  then have "hd (js_sort cmp xs) \<in> set (js_sort cmp xs)" by (rule hd_in_set)
  then show ?thesis by (simp add: js_sort_set)
qed

lemma fetch_not_recent:
  "fetchLatestNews user env recent = Inr (items, profile) \<Longrightarrow>
   item \<in> set items \<Longrightarrow> \<not> includes_url recent (news_url item)"
  by (auto simp add: fetchLatestNews_def Let_def split: sum.splits option.splits prod.splits)

lemma xNewsRest_selected: "selected (xNewsRest agent env (user, s)) = user"
  by (simp add: xNewsRest_def Let_def split: sum.splits prod.splits)

lemma xNewsRest_rotation:
  "xNewsIndex (after (xNewsRest agent env (user, s))) = xNewsIndex s
   \<and> modelIndex (after (xNewsRest agent env (user, s))) = modelIndex s
   \<and> pumpfunType (after (xNewsRest agent env (user, s))) = pumpfunType s"
  by (simp add: xNewsRest_def Let_def split: sum.splits prod.splits)

lemma xNewsRest_not_posted:
  "returned (xNewsRest agent env (user, s)) = Inl e \<or>
   returned (xNewsRest agent env (user, s)) = Inr (NoNews m u) \<Longrightarrow>
   after (xNewsRest agent env (user, s)) = s \<and> published (xNewsRest agent env (user, s)) = []"
  by (auto simp add: xNewsRest_def Let_def split: sum.splits prod.splits if_splits)

lemma xNewsRest_posted:
  assumes "returned (xNewsRest agent env (user, s)) = Inr (XNewsPosted p)"
  shows "after (xNewsRest agent env (user, s))
           = s\<lparr>recentNewsUrls := trackNewsUrl (newsSource p) (recentNewsUrls s)\<rparr>"
    and "published (xNewsRest agent env (user, s))
           = (case agent of None \<Rightarrow> [] | Some a \<Rightarrow> [(title p, body p)])"
    and "forumPostId p
           = (case agent of None \<Rightarrow> None
              | Some a \<Rightarrow> forumPostIdOf (createForumPost a (title p) (body p)))"
    and "\<not> includes_url (recentNewsUrls s) (newsSource p)"
proof -
  from assms obtain items profile where
    f: "fetchLatestNews user env (recentNewsUrls s) = Inr (items, profile)" and ne: "items \<noteq> []"
    by (auto simp add: xNewsRest_def Let_def split: sum.splits prod.splits if_splits)
  let ?top = "hd (js_sort byDateDesc items)"
  have src: "newsSource p = news_url ?top"
    using assms f ne by (auto simp add: xNewsRest_def Let_def split: prod.splits)
  show "after (xNewsRest agent env (user, s))
           = s\<lparr>recentNewsUrls := trackNewsUrl (newsSource p) (recentNewsUrls s)\<rparr>"
    using assms f ne by (auto simp add: xNewsRest_def Let_def split: prod.splits)
  show "published (xNewsRest agent env (user, s))
           = (case agent of None \<Rightarrow> [] | Some a \<Rightarrow> [(title p, body p)])"
    using assms f ne
    by (auto simp add: xNewsRest_def Let_def postToForum_def split: prod.splits option.splits)
  show "forumPostId p
           = (case agent of None \<Rightarrow> None
              | Some a \<Rightarrow> forumPostIdOf (createForumPost a (title p) (body p)))"
    using assms f ne
    by (auto simp add: xNewsRest_def Let_def postToForum_def forumPostIdOf_def
             split: prod.splits option.splits)
  have "?top \<in> set items" using ne by (rule hd_js_sort_in)
  then show "\<not> includes_url (recentNewsUrls s) (newsSource p)"
    unfolding src using f by (rule fetch_not_recent [rotated])
qed

lemma xNewsBegin_window: "recentNewsUrls (snd (xNewsBegin force s)) = recentNewsUrls s"
  by (simp add: xNewsBegin_def Let_def split: prod.splits)

lemma runXNewsPost_window:
  "recentNewsUrls (after (runXNewsPost agent force env s)) =
     (case returned (runXNewsPost agent force env s) of
        Inr (XNewsPosted p) \<Rightarrow> trackNewsUrl (newsSource p) (recentNewsUrls s)
      | Inr (NoNews m u) \<Rightarrow> recentNewsUrls s
      | Inl e \<Rightarrow> recentNewsUrls s)"
proof -
  obtain user s1 where b: "xNewsBegin force s = (user, s1)" by (cases "xNewsBegin force s")
  have w: "recentNewsUrls s1 = recentNewsUrls s" using xNewsBegin_window [of force s] b by simp
  show ?thesis
  proof (cases "returned (xNewsRest agent env (user, s1))")
    case (Inl e)
    then show ?thesis using xNewsRest_not_posted [of agent env user s1 e] b w
      by (simp add: runXNewsPost_def)
  next
    case (Inr r)
    show ?thesis
    proof (cases r)
      case (NoNews m u)
      then show ?thesis using Inr xNewsRest_not_posted [of agent env user s1 _ m u] b w
        by (simp add: runXNewsPost_def)
    next
      case (XNewsPosted p)
      then show ?thesis using Inr xNewsRest_posted(1) [of agent env user s1 p] b w
        by (simp add: runXNewsPost_def)
    qed
  qed
qed

lemma runXNewsPost_fresh:
  assumes "returned (runXNewsPost agent force env s) = Inr (XNewsPosted p)"
  shows "\<not> includes_url (recentNewsUrls s) (newsSource p)"
proof -
  obtain user s1 where b: "xNewsBegin force s = (user, s1)" by (cases "xNewsBegin force s")
  have w: "recentNewsUrls s1 = recentNewsUrls s" using xNewsBegin_window [of force s] b by simp
  from assms b have "returned (xNewsRest agent env (user, s1)) = Inr (XNewsPosted p)"
    by (simp add: runXNewsPost_def)
  then have "\<not> includes_url (recentNewsUrls s1) (newsSource p)" by (rule xNewsRest_posted(4))
  then show ?thesis using w by simp
qed

subsection \<open>Selection of the option of a cycle\<close>

lemma selectOption_rotate:
  "\<not> truthy force \<Longrightarrow> selectOption opts i force = (opts ! (i mod length opts), i + 1)"
  by (auto simp add: selectOption_def or_str_def truthy_def split: option.splits)

lemma selectOption_forced:
  "force = Some x \<Longrightarrow> x \<noteq> [] \<Longrightarrow> selectOption opts i force = (x, i)"
  by (simp add: selectOption_def or_str_def truthy_def)

lemma runXNewsPost_selection:
  "selected (runXNewsPost agent force env s) = fst (selectOption X_NEWS_ACCOUNTS (xNewsIndex s) force)
   \<and> xNewsIndex (after (runXNewsPost agent force env s))
       = snd (selectOption X_NEWS_ACCOUNTS (xNewsIndex s) force)
   \<and> modelIndex (after (runXNewsPost agent force env s)) = modelIndex s
   \<and> pumpfunType (after (runXNewsPost agent force env s)) = pumpfunType s"
  by (simp add: runXNewsPost_def xNewsBegin_def xNewsRest_selected xNewsRest_rotation
        split: prod.splits)

lemma runImageShowcase_selection:
  "selected (runImageShowcase agent force env s) = fst (selectOption IMAGE_MODELS (modelIndex s) force)
   \<and> after (runImageShowcase agent force env s)
       = s\<lparr>modelIndex := snd (selectOption IMAGE_MODELS (modelIndex s) force)\<rparr>"
  by (simp add: runImageShowcase_def showcaseBegin_def showcaseRest_def Let_def
        split: prod.splits sum.splits)

lemma runPumpFunPost_selection:
  "selected (runPumpFunPost agent force env s) = fst (pumpFunBegin force s)
   \<and> after (runPumpFunPost agent force env s) = snd (pumpFunBegin force s)"
  by (simp add: runPumpFunPost_def pumpFunRest_def Let_def
        split: prod.splits sum.splits option.splits)

lemma xnews_username:
  "returned (runXNewsPost agent force env s) = Inr (XNewsPosted p) \<Longrightarrow>
   username p = selected (runXNewsPost agent force env s)"
  by (auto simp add: runXNewsPost_def xNewsRest_def Let_def
           split: prod.splits sum.splits if_splits)

lemma showcase_model:
  "returned (runImageShowcase agent force env s) = Inr p \<Longrightarrow>
   model p = selected (runImageShowcase agent force env s)"
  by (auto simp add: runImageShowcase_def showcaseRest_def Let_def
           split: prod.splits sum.splits)

subsection \<open>Evaluating the pipelines at concrete inputs\<close>

lemmas xnews_eval =
  previewXNews_def runXNewsPost_def xNewsBegin_def xNewsRest_def selectOption_def
  X_NEWS_ACCOUNTS_def fetchLatestNews_def newsArray_def profileOf_def toNewsItem_def
  js_or_def or_str_def or_int_def truthy_def includes_url_def js_sort_def byDateDesc_def
  generateNewsTitle_def generateNewsBanner_def postToForum_def forumPostIdOf_def
  xNewsTitle_def xNewsBody_def filterBoolean_def
  trackNewsUrl_def track_def MAX_RECENT_def Let_def

lemmas sample_eval =
  sample_item_def sample_item_no_url_def sample_env_def sample_env_no_url_def
  sample_agent_def failing_agent_def sample_post_def initial_def

lemma sample_run:
  "returned (runXNewsPost (Some sample_agent) None sample_env initial)
     = Inr (XNewsPosted sample_post)"
  by (simp add: xnews_eval sample_eval)

lemma sample_scores:
  "scoreAll [listing_a, listing_b, listing_c, listing_d] =
     [\<lparr>listing = listing_a, score = 5,
       matchedCategories = [''image'', ''video'', ''defi'', ''agent'', ''content'']\<rparr>,
      \<lparr>listing = listing_b, score = 5,
       matchedCategories = [''image'', ''video'', ''defi'', ''agent'', ''content'']\<rparr>,
      \<lparr>listing = listing_c, score = 3, matchedCategories = [''image'', ''video'', ''defi'']\<rparr>,
      \<lparr>listing = listing_d, score = 1, matchedCategories = [''image'']\<rparr>]"
  by code_simp

lemma sample_ids:
  "listing_id listing_a = ''a''" "listing_id listing_b = ''b''"
  "listing_id listing_c = ''c''" "listing_id listing_d = ''d''"
  by (simp_all add: listing_a_def listing_b_def listing_c_def listing_d_def)

section \<open>Claim C1: the rotation cursor selects, then advances\<close>

lemma rotation_eq:
  "rotation opts i n = map (\<lambda>k. opts ! (k mod length opts)) [i..<i + n]"
proof (induction n arbitrary: i)
  case 0
  then show ?case by simp
next
  case (Suc n)
  have "rotation opts i (Suc n) = opts ! (i mod length opts) # rotation opts (Suc i) n"
    by (simp add: selectOption_rotate truthy_def)
  also have "\<dots> = opts ! (i mod length opts) # map (\<lambda>k. opts ! (k mod length opts)) [Suc i..<Suc i + n]"
    by (simp only: Suc.IH)
  also have "\<dots> = map (\<lambda>k. opts ! (k mod length opts)) [i..<i + Suc n]"
    by (subst (2) upt_rec) simp
  finally show ?case .
qed

lemma nth_concat_replicate:
  "k < q * length xs \<Longrightarrow> concat (replicate q xs) ! k = xs ! (k mod length xs)"
proof (induction q arbitrary: k)
  case 0
  then show ?case by simp
next
  case (Suc q)
  show ?case
  proof (cases "k < length xs")
    case True
    then show ?thesis by (simp add: nth_append)
  next
    case False
    then have "k - length xs < q * length xs" using Suc.prems by auto
    then have "concat (replicate q xs) ! (k - length xs) = xs ! ((k - length xs) mod length xs)"
      by (rule Suc.IH)
    moreover have "(k - length xs) mod length xs = k mod length xs"
      using False by (simp add: le_mod_geq)
    ultimately show ?thesis using False by (simp add: nth_append)
  qed
qed

lemma round_robin:
  assumes "r \<le> length xs"
  shows "map (\<lambda>k. xs ! (k mod length xs)) [0..<q * length xs + r] = concat (replicate q xs) @ take r xs"
proof (rule nth_equalityI)
  show "length (map (\<lambda>k. xs ! (k mod length xs)) [0..<q * length xs + r])
          = length (concat (replicate q xs) @ take r xs)"
    using assms by (simp add: length_concat sum_list_replicate min_def mult.commute)
next
  fix k assume "k < length (map (\<lambda>k. xs ! (k mod length xs)) [0..<q * length xs + r])"
  then have k: "k < q * length xs + r" by simp
  have lc: "length (concat (replicate q xs)) = q * length xs"
    by (simp add: length_concat sum_list_replicate mult.commute)
  show "map (\<lambda>k. xs ! (k mod length xs)) [0..<q * length xs + r] ! k
          = (concat (replicate q xs) @ take r xs) ! k"
  proof (cases "k < q * length xs")
    case True
    then show ?thesis using k lc by (simp add: nth_append nth_concat_replicate)
  next
    case False
    then have ge: "q * length xs \<le> k" by simp
    then obtain j where j: "k = q * length xs + j" using le_Suc_ex by blast
    with k have jr: "j < r" by simp
    then have jl: "j < length xs" using assms by simp
    have "k mod length xs = j" using j jl by simp
    then show ?thesis using k lc False j jr jl by (simp add: nth_append)
  qed
qed

lemma xNewsCycles_rotation:
  "fst (xNewsCycles agent envs s) = rotation X_NEWS_ACCOUNTS (xNewsIndex s) (length envs)
   \<and> xNewsIndex (snd (xNewsCycles agent envs s)) = xNewsIndex s + length envs"
proof (induction envs arbitrary: s)
  case Nil
  then show ?case by simp
next
  case (Cons env envs)
  let ?out = "runXNewsPost agent None env s"
  have sel: "selected ?out = X_NEWS_ACCOUNTS ! (xNewsIndex s mod length X_NEWS_ACCOUNTS)"
    and ind: "xNewsIndex (after ?out) = Suc (xNewsIndex s)"
    using runXNewsPost_selection [of agent None env s]
    by (simp_all add: selectOption_rotate truthy_def)
  show ?case
    using Cons.IH [of "after ?out"] sel ind
    by (simp add: Let_def selectOption_rotate truthy_def case_prod_beta)
qed

lemma showcaseCycles_rotation:
  "fst (showcaseCycles agent envs s) = rotation IMAGE_MODELS (modelIndex s) (length envs)
   \<and> modelIndex (snd (showcaseCycles agent envs s)) = modelIndex s + length envs"
proof (induction envs arbitrary: s)
  case Nil
  then show ?case by simp
next
  case (Cons env envs)
  let ?out = "runImageShowcase agent None env s"
  have sel: "selected ?out = IMAGE_MODELS ! (modelIndex s mod length IMAGE_MODELS)"
    and ind: "modelIndex (after ?out) = Suc (modelIndex s)"
    using runImageShowcase_selection [of agent None env s]
    by (simp_all add: selectOption_rotate truthy_def)
  show ?case
    using Cons.IH [of "after ?out"] sel ind
    by (simp add: Let_def selectOption_rotate truthy_def case_prod_beta)
qed

text \<open>
  C1. A selection without a forced option takes the option at the stored index
  modulo the number of options (a position inside a non-empty option list), and
  stores the index plus one. This is what a non-forced run of the X News
  pipeline does with \<open>X_NEWS_ACCOUNTS\<close> and \<open>xNewsIndex\<close>, and a non-forced run of
  the Image Showcase pipeline with \<open>IMAGE_MODELS\<close> and \<open>modelIndex\<close>, whatever the
  external services answer. So \<open>n\<close> successive non-forced selections from index
  \<open>i\<close> give the options at \<open>i, i + 1, ..., i + n - 1\<close> modulo the number of
  options; from index 0 over \<open>[a, b, c]\<close> they give \<open>a, b, c, a, b, c, ...\<close>:
  \<open>q\<close> full rounds followed by the first \<open>r\<close> options, for every length
  \<open>3 q + r\<close>. Successive runs of either pipeline select exactly this sequence
  and leave the index advanced by the number of runs.
\<close>

theorem rotation_cursor:
  "(\<not> truthy force \<longrightarrow>
      selectOption opts i force = (opts ! (i mod length opts), i + 1)
      \<and> selected (runXNewsPost agent force env s)
          = X_NEWS_ACCOUNTS ! (xNewsIndex s mod length X_NEWS_ACCOUNTS)
      \<and> xNewsIndex (after (runXNewsPost agent force env s)) = xNewsIndex s + 1
      \<and> selected (runImageShowcase agent force env' s)
          = IMAGE_MODELS ! (modelIndex s mod length IMAGE_MODELS)
      \<and> modelIndex (after (runImageShowcase agent force env' s)) = modelIndex s + 1)
   \<and> (opts \<noteq> [] \<longrightarrow> i mod length opts < length opts)
   \<and> rotation opts i n = map (\<lambda>k. opts ! (k mod length opts)) [i..<i + n]
   \<and> (r \<le> 3 \<longrightarrow>
        rotation [a, b, c] 0 (q * 3 + r) = concat (replicate q [a, b, c]) @ take r [a, b, c])
   \<and> fst (xNewsCycles agent envs s) = rotation X_NEWS_ACCOUNTS (xNewsIndex s) (length envs)
   \<and> xNewsIndex (snd (xNewsCycles agent envs s)) = xNewsIndex s + length envs
   \<and> fst (showcaseCycles agent envs' s) = rotation IMAGE_MODELS (modelIndex s) (length envs')
   \<and> modelIndex (snd (showcaseCycles agent envs' s)) = modelIndex s + length envs'"
proof -
  have one: "\<not> truthy force \<longrightarrow>
      selectOption opts i force = (opts ! (i mod length opts), i + 1)
      \<and> selected (runXNewsPost agent force env s)
          = X_NEWS_ACCOUNTS ! (xNewsIndex s mod length X_NEWS_ACCOUNTS)
      \<and> xNewsIndex (after (runXNewsPost agent force env s)) = xNewsIndex s + 1
      \<and> selected (runImageShowcase agent force env' s)
          = IMAGE_MODELS ! (modelIndex s mod length IMAGE_MODELS)
      \<and> modelIndex (after (runImageShowcase agent force env' s)) = modelIndex s + 1"
    using runXNewsPost_selection [of agent force env s]
          runImageShowcase_selection [of agent force env' s]
    by (simp add: selectOption_rotate)
  have abc: "r \<le> 3 \<longrightarrow>
        rotation [a, b, c] 0 (q * 3 + r) = concat (replicate q [a, b, c]) @ take r [a, b, c]"
  proof
    assume "r \<le> 3"
    then have "r \<le> length [a, b, c]" by simp
    then have "map (\<lambda>k. [a, b, c] ! (k mod length [a, b, c])) [0..<q * length [a, b, c] + r]
                 = concat (replicate q [a, b, c]) @ take r [a, b, c]"
      by (rule round_robin)
    moreover have "rotation [a, b, c] 0 (q * 3 + r)
                 = map (\<lambda>k. [a, b, c] ! (k mod length [a, b, c])) [0..<0 + (q * 3 + r)]"
      by (rule rotation_eq)
    moreover have "q * length [a, b, c] + r = 0 + (q * 3 + r)" by simp
    ultimately show "rotation [a, b, c] 0 (q * 3 + r)
                 = concat (replicate q [a, b, c]) @ take r [a, b, c]"
      by (simp only:)
  qed
  show ?thesis
    using one abc rotation_eq [of opts i n] xNewsCycles_rotation [of agent envs s]
          showcaseCycles_rotation [of agent envs' s]
    by simp
qed

text \<open>
  The theorem at seven selections over three options, and at four runs of the
  Image Showcase pipeline from the initial state: the fourth run selects the
  first model again.
\<close>

theorem rotation_cursor_witness:
  "rotation [''a'', ''b'', ''c''] 0 7 = [''a'', ''b'', ''c'', ''a'', ''b'', ''c'', ''a'']
   \<and> selected (runXNewsPost (Some sample_agent) None sample_env initial) = ''solana''
   \<and> xNewsIndex (after (runXNewsPost (Some sample_agent) None sample_env initial)) = 1
   \<and> fst (showcaseCycles (Some sample_agent)
            [sample_showcase_env, sample_showcase_env, sample_showcase_env, sample_showcase_env]
            initial)
       = [''nano-banana'', ''seedream'', ''grok-imagine'', ''nano-banana'']
   \<and> modelIndex (snd (showcaseCycles (Some sample_agent)
            [sample_showcase_env, sample_showcase_env, sample_showcase_env, sample_showcase_env]
            initial)) = 4"
proof -
  let ?envs = "[sample_showcase_env, sample_showcase_env, sample_showcase_env, sample_showcase_env]"
  note T = rotation_cursor [of None "[''a'', ''b'', ''c'']" 0 "Some sample_agent" sample_env initial
             sample_showcase_env 7 1 "''a''" "''b''" "''c''" 2 "[]" ?envs]
  have free: "\<not> truthy None" by (simp add: truthy_def)
  have "(1::nat) \<le> 3 \<longrightarrow> rotation [''a'', ''b'', ''c''] 0 (2 * 3 + 1)
                 = concat (replicate 2 [''a'', ''b'', ''c'']) @ take 1 [''a'', ''b'', ''c'']"
    using T by blast
  then have seven: "rotation [''a'', ''b'', ''c''] 0 (2 * 3 + 1)
                 = concat (replicate 2 [''a'', ''b'', ''c'']) @ take 1 [''a'', ''b'', ''c'']"
    by simp
  have r7: "rotation [''a'', ''b'', ''c''] 0 7 = [''a'', ''b'', ''c'', ''a'', ''b'', ''c'', ''a'']"
    using seven by (simp add: numeral_2_eq_2)
  have sel: "selected (runXNewsPost (Some sample_agent) None sample_env initial)
               = X_NEWS_ACCOUNTS ! (xNewsIndex initial mod length X_NEWS_ACCOUNTS)"
    and adv: "xNewsIndex (after (runXNewsPost (Some sample_agent) None sample_env initial))
               = xNewsIndex initial + 1"
    using T free by blast+
  have cyc: "fst (showcaseCycles (Some sample_agent) ?envs initial)
               = rotation IMAGE_MODELS (modelIndex initial) (length ?envs)"
    and fin: "modelIndex (snd (showcaseCycles (Some sample_agent) ?envs initial))
               = modelIndex initial + length ?envs"
    using T by blast+
  have r4: "rotation IMAGE_MODELS 0 4 = [''nano-banana'', ''seedream'', ''grok-imagine'', ''nano-banana'']"
    by code_simp
  have m0: "modelIndex initial = 0" and x0: "xNewsIndex initial = 0"
    by (simp_all add: initial_def)
  have l4: "length ?envs = 4" by simp
  have first: "X_NEWS_ACCOUNTS ! (0 mod length X_NEWS_ACCOUNTS) = ''solana''"
    by (simp add: X_NEWS_ACCOUNTS_def)
  have sel': "selected (runXNewsPost (Some sample_agent) None sample_env initial) = ''solana''"
    using sel first unfolding x0 by (rule trans)
  have adv': "xNewsIndex (after (runXNewsPost (Some sample_agent) None sample_env initial)) = 1"
    using adv unfolding x0 by simp
  have cyc': "fst (showcaseCycles (Some sample_agent) ?envs initial)
                = [''nano-banana'', ''seedream'', ''grok-imagine'', ''nano-banana'']"
    using cyc r4 unfolding m0 l4 by (rule trans)
  have fin': "modelIndex (snd (showcaseCycles (Some sample_agent) ?envs initial)) = 4"
    using fin unfolding m0 l4 by (simp only: add_0)
  show ?thesis
    using r7 sel' adv' cyc' fin' by blast
qed

section \<open>Claim C2: candidate selection\<close>

lemma insert_byScoreDesc_sorted:
  "sorted_wrt (\<lambda>a b. score a \<ge> score b) ys \<Longrightarrow>
   sorted_wrt (\<lambda>a b. score a \<ge> score b) (insert_cmp byScoreDesc x ys)"
  by (induction ys) (auto simp add: byScoreDesc_def insert_cmp_set)

lemma js_sort_byScoreDesc_sorted:
  "sorted_wrt (\<lambda>a b. score a \<ge> score b) (js_sort byScoreDesc xs)"
  by (induction xs) (simp_all add: js_sort_def insert_byScoreDesc_sorted)

lemma insert_byScoreDesc_stable:
  "sorted_wrt (\<lambda>a b. score a \<ge> score b) ys \<Longrightarrow>
   filter (\<lambda>c. score c = k) (insert_cmp byScoreDesc x ys)
     = filter (\<lambda>c. score c = k) (x # ys)"
  by (induction ys) (auto simp add: byScoreDesc_def)

lemma js_sort_byScoreDesc_stable:
  "filter (\<lambda>c. score c = k) (js_sort byScoreDesc xs) = filter (\<lambda>c. score c = k) xs"
proof (induction xs)
  case Nil
  then show ?case by (simp add: js_sort_def)
next
  case (Cons x xs)
  have "js_sort byScoreDesc (x # xs) = insert_cmp byScoreDesc x (js_sort byScoreDesc xs)"
    by (simp add: js_sort_def)
  then show ?case
    using insert_byScoreDesc_stable [OF js_sort_byScoreDesc_sorted, of k x xs] Cons.IH by simp
qed

text \<open>
  C2. The list \<open>toSubmit\<close> of \<open>scanAndSubmit\<close> is the first 3 items of the list
  obtained from the scored listings by dropping the items with score below 2,
  then those whose id is in \<open>submittedListings\<close>, and sorting what remains by
  score, highest first: the sorted list holds exactly the remaining items, its
  scores never increase, and items of equal score keep their original relative
  order. The same holds for every threshold and every cap put in the place of
  the literals 2 and 3; for four items with scores 5, 5, 3, 1 and cap 2 the
  output is the two items of score 5 in their original order (with the cap 3 of
  the code, those two followed by the item of score 3). When nothing qualifies
  the list is empty and the scan returns its normal result, with no submission.
\<close>

theorem candidate_selection:
  "toSubmit S ls = take 3 (scanCandidates S ls)
   \<and> scanCandidates S ls = rank 2 S (scoreAll ls)
   \<and> toSubmit S ls = select 2 3 S (scoreAll ls)
   \<and> select m n S cs = take n (rank m S cs)
   \<and> set (rank m S cs) = {c \<in> set cs. m \<le> score c \<and> listing_id (listing c) \<notin> S}
   \<and> length (rank m S cs) = length (filter (\<lambda>c. m \<le> score c \<and> listing_id (listing c) \<notin> S) cs)
   \<and> sorted_wrt (\<lambda>a b. score a \<ge> score b) (rank m S cs)
   \<and> (\<forall>k. filter (\<lambda>c. score c = k) (rank m S cs)
            = filter (\<lambda>c. score c = k)
                (filter (\<lambda>c. listing_id (listing c) \<notin> S) (filter (\<lambda>c. m \<le> score c) cs)))
   \<and> length (select m n S cs) \<le> n
   \<and> length (toSubmit S ls) \<le> 3
   \<and> (score a = 5 \<and> score b = 5 \<and> score c = 3 \<and> score d = 1
        \<and> listing_id (listing a) \<notin> S \<and> listing_id (listing b) \<notin> S
        \<and> listing_id (listing c) \<notin> S \<and> listing_id (listing d) \<notin> S \<longrightarrow>
        select 2 2 S [a, b, c, d] = [a, b] \<and> select 2 3 S [a, b, c, d] = [a, b, c])
   \<and> (ls \<noteq> [] \<and> (\<forall>c \<in> set (scoreAll ls). score c < 2 \<or> listing_id (listing c) \<in> S) \<longrightarrow>
        toSubmit S ls = []
        \<and> scanAndSubmit (Some ls) submitWork S
            = (\<lparr>submitted = 0, scanned = length ls, candidates = Some 0\<rparr>, S))"
proof -
  let ?ok = "\<lambda>c. m \<le> score c \<and> listing_id (listing c) \<notin> S"
  have ff': "filter (\<lambda>c. listing_id (listing c) \<notin> S) (filter (\<lambda>c. m \<le> score c) cs) = filter ?ok cs"
    by simp
  have r: "rank m S cs = js_sort byScoreDesc (filter ?ok cs)"
    by (simp add: rank_def)
  have s1: "set (rank m S cs) = {c \<in> set cs. ?ok c}"
    unfolding r by (simp add: js_sort_set)
  have s2: "length (rank m S cs) = length (filter ?ok cs)"
    unfolding r by (simp add: js_sort_length)
  have s3: "sorted_wrt (\<lambda>a b. score a \<ge> score b) (rank m S cs)"
    unfolding r by (rule js_sort_byScoreDesc_sorted)
  have s4: "\<forall>k. filter (\<lambda>c. score c = k) (rank m S cs)
            = filter (\<lambda>c. score c = k)
                (filter (\<lambda>c. listing_id (listing c) \<notin> S) (filter (\<lambda>c. m \<le> score c) cs))"
    unfolding r ff' by (simp add: js_sort_byScoreDesc_stable)
  have ex: "score a = 5 \<and> score b = 5 \<and> score c = 3 \<and> score d = 1
        \<and> listing_id (listing a) \<notin> S \<and> listing_id (listing b) \<notin> S
        \<and> listing_id (listing c) \<notin> S \<and> listing_id (listing d) \<notin> S \<longrightarrow>
        select 2 2 S [a, b, c, d] = [a, b] \<and> select 2 3 S [a, b, c, d] = [a, b, c]"
    by (simp add: select_def rank_def js_sort_def byScoreDesc_def)
  have none: "ls \<noteq> [] \<and> (\<forall>c \<in> set (scoreAll ls). score c < 2 \<or> listing_id (listing c) \<in> S) \<longrightarrow>
        toSubmit S ls = []
        \<and> scanAndSubmit (Some ls) submitWork S
            = (\<lparr>submitted = 0, scanned = length ls, candidates = Some 0\<rparr>, S)"
  proof
    assume a: "ls \<noteq> [] \<and> (\<forall>c \<in> set (scoreAll ls). score c < 2 \<or> listing_id (listing c) \<in> S)"
    then have "filter (\<lambda>l. listing_id (listing l) \<notin> S) (filter (\<lambda>l. score l \<ge> 2) (scoreAll ls)) = []"
      by (auto simp add: filter_empty_conv)
    then have e: "scanCandidates S ls = []"
      by (simp add: scanCandidates_def rank_def js_sort_def)
    then show "toSubmit S ls = []
        \<and> scanAndSubmit (Some ls) submitWork S
            = (\<lparr>submitted = 0, scanned = length ls, candidates = Some 0\<rparr>, S)"
      using a by (simp add: toSubmit_def scanAndSubmit_def Let_def)
  qed
  show ?thesis
    using s1 s2 s3 s4 ex none
    by (simp add: toSubmit_def scanCandidates_def select_def)
qed

text \<open>
  The theorem at four listings that score 5, 5, 3 and 1, with nothing submitted
  before, and at the same listings when the first three were submitted before.
\<close>

theorem candidate_selection_witness:
  "map score (scoreAll [listing_a, listing_b, listing_c, listing_d]) = [5, 5, 3, 1]
   \<and> map (\<lambda>c. listing_id (listing c)) (toSubmit {} [listing_a, listing_b, listing_c, listing_d])
       = [''a'', ''b'', ''c'']
   \<and> map (\<lambda>c. listing_id (listing c))
         (select 2 2 {} (scoreAll [listing_a, listing_b, listing_c, listing_d]))
       = [''a'', ''b'']
   \<and> toSubmit {''a'', ''b'', ''c''} [listing_a, listing_b, listing_c, listing_d] = []
   \<and> scanAndSubmit (Some [listing_a, listing_b, listing_c, listing_d]) (\<lambda>i. SubmitReturned True)
         {''a'', ''b'', ''c''}
       = (\<lparr>submitted = 0, scanned = 4, candidates = Some 0\<rparr>, {''a'', ''b'', ''c''})"
  using candidate_selection [of "{}" "[listing_a, listing_b, listing_c, listing_d]" 2 2
          "scoreAll [listing_a, listing_b, listing_c, listing_d]"
          "\<lparr>listing = listing_a, score = 5,
            matchedCategories = [''image'', ''video'', ''defi'', ''agent'', ''content'']\<rparr>"
          "\<lparr>listing = listing_b, score = 5,
            matchedCategories = [''image'', ''video'', ''defi'', ''agent'', ''content'']\<rparr>"
          "\<lparr>listing = listing_c, score = 3, matchedCategories = [''image'', ''video'', ''defi'']\<rparr>"
          "\<lparr>listing = listing_d, score = 1, matchedCategories = [''image'']\<rparr>"
          "\<lambda>i. SubmitReturned True"]
        candidate_selection [of "{''a'', ''b'', ''c''}" "[listing_a, listing_b, listing_c, listing_d]" 2 2
          "scoreAll [listing_a, listing_b, listing_c, listing_d]"
          "\<lparr>listing = listing_a, score = 5,
            matchedCategories = [''image'', ''video'', ''defi'', ''agent'', ''content'']\<rparr>"
          "\<lparr>listing = listing_b, score = 5,
            matchedCategories = [''image'', ''video'', ''defi'', ''agent'', ''content'']\<rparr>"
          "\<lparr>listing = listing_c, score = 3, matchedCategories = [''image'', ''video'', ''defi'']\<rparr>"
          "\<lparr>listing = listing_d, score = 1, matchedCategories = [''image'']\<rparr>"
          "\<lambda>i. SubmitReturned True"]
  by (simp add: sample_scores sample_ids toSubmit_def scanCandidates_def select_def rank_def
        js_sort_def byScoreDesc_def scanAndSubmit_def)

section \<open>Claim C3: the relevance scorer\<close>

lemma includes_str_sublist: "includes_str t kw = sublist kw t"
  by (induction t) (simp_all add: sublist_Cons_right)

lemma matchKeywords_iff:
  "matchKeywords text kws = (\<exists>kw \<in> set kws. includes_str text kw)"
  by (induction kws) auto

lemma scoreLoop_eq:
  "scoreLoop text table (n, cs) =
     (n + length (filter (\<lambda>(c, kws). matchKeywords text kws) table),
      cs @ map fst (filter (\<lambda>(c, kws). matchKeywords text kws) table))"
  by (induction table arbitrary: n cs) auto

text \<open>
  C3. For every text and every capability table, the score is the number of
  table entries (categories) of which at least one keyword occurs in the text,
  and the matched categories are exactly those entries' labels, in table order:
  a category counts once however many of its keywords occur. So the score is the
  length of the list of matched categories, it is at most the number of
  categories, and with distinct labels it is the number of distinct matched
  categories. \<open>scoreListing\<close> applies this to the fixed table of seven categories
  and the case-folded text of title, description and slug, so its score is at most
  7, and it depends on the listing through that text only.
\<close>

theorem relevance_scorer:
  "fst (scoreText table text) = length (filter (\<lambda>(c, kws). \<exists>kw \<in> set kws. sublist kw text) table)
   \<and> snd (scoreText table text) = map fst (filter (\<lambda>(c, kws). \<exists>kw \<in> set kws. sublist kw text) table)
   \<and> fst (scoreText table text) = length (snd (scoreText table text))
   \<and> fst (scoreText table text) \<le> length table
   \<and> (distinct (map fst table) \<longrightarrow>
        distinct (snd (scoreText table text))
        \<and> fst (scoreText table text) = card {c. \<exists>kws. (c, kws) \<in> set table \<and> (\<exists>kw \<in> set kws. sublist kw text)})
   \<and> scoreListing l = scoreText CAPABILITY_KEYWORDS (listingText l)
   \<and> listingText l = toLowerCase (or_str (listing_title l) [] @ '' '' @ or_str (listing_description l) []
                                    @ '' '' @ or_str (listing_slug l) [])
   \<and> fst (scoreListing l) \<le> 7
   \<and> distinct (snd (scoreListing l))
   \<and> (listingText l = listingText l' \<longrightarrow> scoreListing l = scoreListing l')"
proof -
  let ?hit = "\<lambda>(c, kws). \<exists>kw \<in> set kws. sublist kw text"
  have same: "(\<lambda>(c, kws). matchKeywords text kws) = ?hit"
    by (simp add: matchKeywords_iff includes_str_sublist)
  have pair: "scoreText table text = (length (filter ?hit table), map fst (filter ?hit table))"
    unfolding scoreText_def scoreLoop_eq same by simp
  have d: "distinct (map fst table) \<longrightarrow>
        distinct (snd (scoreText table text))
        \<and> fst (scoreText table text) = card {c. \<exists>kws. (c, kws) \<in> set table \<and> (\<exists>kw \<in> set kws. sublist kw text)}"
  proof
    assume dis: "distinct (map fst table)"
    then have dm: "distinct (map fst (filter ?hit table))" by (rule distinct_map_filter)
    have e: "{c. \<exists>kws. (c, kws) \<in> set table \<and> (\<exists>kw \<in> set kws. sublist kw text)}
            = set (map fst (filter ?hit table))"
      by force
    have "card (set (map fst (filter ?hit table))) = length (map fst (filter ?hit table))"
      using dm by (rule distinct_card)
    then have "card {c. \<exists>kws. (c, kws) \<in> set table \<and> (\<exists>kw \<in> set kws. sublist kw text)}
            = length (filter ?hit table)"
      by (simp only: e length_map)
    then show "distinct (snd (scoreText table text))
        \<and> fst (scoreText table text) = card {c. \<exists>kws. (c, kws) \<in> set table \<and> (\<exists>kw \<in> set kws. sublist kw text)}"
      using dm by (simp add: pair)
  qed
  have bound: "fst (scoreText table' text') \<le> length table'" for table' text'
    by (simp add: scoreText_def scoreLoop_eq)
  have len: "length CAPABILITY_KEYWORDS = 7"
    by (simp add: CAPABILITY_KEYWORDS_def)
  have keys: "distinct (map fst CAPABILITY_KEYWORDS)"
    by (simp add: CAPABILITY_KEYWORDS_def)
  have seven: "fst (scoreListing l) \<le> 7"
    using bound [of CAPABILITY_KEYWORDS "listingText l"] len
    by (simp only: scoreListing_def)
  have "distinct (map fst (filter (\<lambda>(c, kws). matchKeywords (listingText l) kws) CAPABILITY_KEYWORDS))"
    using keys by (rule distinct_map_filter)
  then have dl: "distinct (snd (scoreListing l))"
    by (simp only: scoreListing_def scoreText_def scoreLoop_eq snd_conv append_Nil)
  have same_text: "listingText l = listingText l' \<longrightarrow> scoreListing l = scoreListing l'"
    by (simp add: scoreListing_def)
  show ?thesis
    using pair d seven dl bound [of table "text"] same_text
    by (simp add: scoreListing_def listingText_def)
qed

text \<open>
  The theorem at the fixed table and two listings: one matching five categories,
  and one matching the single category \<open>image\<close> through two of its keywords.
\<close>

theorem relevance_scorer_witness:
  "distinct (map fst CAPABILITY_KEYWORDS)
   \<and> length CAPABILITY_KEYWORDS = 7
   \<and> scoreListing listing_a = (5, [''image'', ''video'', ''defi'', ''agent'', ''content''])
   \<and> sublist ''design'' (listingText listing_d)
   \<and> sublist ''logo'' (listingText listing_d)
   \<and> scoreListing listing_d = (1, [''image''])
   \<and> fst (scoreListing listing_a)
       = card {c. \<exists>kws. (c, kws) \<in> set CAPABILITY_KEYWORDS
                   \<and> (\<exists>kw \<in> set kws. sublist kw (listingText listing_a))}"
proof -
  have a: "scoreListing listing_a = (5, [''image'', ''video'', ''defi'', ''agent'', ''content''])"
    and d: "scoreListing listing_d = (1, [''image''])"
    using sample_scores by (simp_all add: scoreAll_def prod_eq_iff)
  have t: "listingText listing_d = ''design a logo  ''"
    by (simp add: listingText_def listing_d_def toLowerCase_def toLowerChar_def or_str_def)
  have s1: "sublist ''design'' (listingText listing_d)"
    unfolding t by (simp add: sublist_Cons_right)
  have s2: "sublist ''logo'' (listingText listing_d)"
    unfolding t by (simp add: sublist_Cons_right)
  have k: "distinct (map fst CAPABILITY_KEYWORDS)" and n: "length CAPABILITY_KEYWORDS = 7"
    by (simp_all add: CAPABILITY_KEYWORDS_def)
  have "fst (scoreText CAPABILITY_KEYWORDS (listingText listing_a))
       = card {c. \<exists>kws. (c, kws) \<in> set CAPABILITY_KEYWORDS
                   \<and> (\<exists>kw \<in> set kws. sublist kw (listingText listing_a))}"
    using relevance_scorer [of CAPABILITY_KEYWORDS "listingText listing_a" listing_a listing_a] k
    by blast
  then show ?thesis using a d s1 s2 k n by (simp add: scoreListing_def)
qed

section \<open>Claim C4: the dedup window is a bounded FIFO\<close>

text \<open>
  C4. Whatever sequence of record operations is applied to the empty window, the
  window never holds more than the capacity (30 in \<open>trackNewsUrl\<close>): it holds
  exactly the most recent recorded identifiers, in the order they were recorded.
  A record on a full window removes the front entry and appends at the back, so
  the length is the capacity again; entries in the window are never moved. With
  capacity 3, recording \<open>x1, x2, x3, x4\<close> leaves \<open>[x2, x3, x4]\<close>: \<open>x4\<close> is in
  the window and \<open>x1\<close> is not. An identifier that is seen again is not brought to
  the back: the membership check changes nothing, a pipeline run records only an
  identifier that was not in the window, and a run that finds only items already
  in the window leaves it unchanged. (A record operation applied directly to an
  identifier in the window appends a further entry and leaves the earlier one in
  its place, to be removed in its turn.) Every run keeps the bound.
\<close>

theorem dedup_window_bounded_fifo:
  "length (trackAll cap us []) \<le> cap
   \<and> trackAll cap us [] = drop (length (filter truthy us) - cap) (filter truthy us)
   \<and> (length w \<le> cap \<and> truthy u \<longrightarrow>
        track cap u w = drop (Suc (length w) - cap) (w @ [u])
        \<and> length (track cap u w) = min (Suc (length w)) cap)
   \<and> (length w < cap \<and> truthy u \<and> u \<in> set w \<longrightarrow> track cap u w = w @ [u])
   \<and> trackNewsUrl u w = track 30 u w
   \<and> (x1 \<noteq> [] \<and> x2 \<noteq> [] \<and> x3 \<noteq> [] \<and> x4 \<noteq> [] \<longrightarrow>
        trackAll 3 [Some x1, Some x2, Some x3, Some x4] [] = [Some x2, Some x3, Some x4]
        \<and> includes_url (trackAll 3 [Some x1, Some x2, Some x3, Some x4] []) (Some x4)
        \<and> (x1 \<notin> {x2, x3, x4} \<longrightarrow>
             \<not> includes_url (trackAll 3 [Some x1, Some x2, Some x3, Some x4] []) (Some x1)))
   \<and> (returned (runXNewsPost agent force env s) = Inr (XNewsPosted p) \<longrightarrow>
        recentNewsUrls (after (runXNewsPost agent force env s))
          = trackNewsUrl (newsSource p) (recentNewsUrls s)
        \<and> \<not> includes_url (recentNewsUrls s) (newsSource p))
   \<and> (returned (runXNewsPost agent force env s) = Inr (NoNews msg who) \<longrightarrow>
        recentNewsUrls (after (runXNewsPost agent force env s)) = recentNewsUrls s)
   \<and> (length (recentNewsUrls s) \<le> 30 \<longrightarrow>
        length (recentNewsUrls (after (runXNewsPost agent force env s))) \<le> 30)"
proof -
  have all: "trackAll cap us [] = drop (length (filter truthy us) - cap) (filter truthy us)"
    using trackAll_window [of "[]" cap us] by simp
  have bound: "length (trackAll cap us []) \<le> cap"
    unfolding all by simp
  have step: "length w \<le> cap \<and> truthy u \<longrightarrow>
        track cap u w = drop (Suc (length w) - cap) (w @ [u])
        \<and> length (track cap u w) = min (Suc (length w)) cap"
  proof
    assume a: "length w \<le> cap \<and> truthy u"
    then have "track cap u w = drop (Suc (length w) - cap) (w @ [u])" by (simp add: track_step)
    then show "track cap u w = drop (Suc (length w) - cap) (w @ [u])
        \<and> length (track cap u w) = min (Suc (length w)) cap"
      using a by auto
  qed
  have again: "length w < cap \<and> truthy u \<and> u \<in> set w \<longrightarrow> track cap u w = w @ [u]"
    by (simp add: track_def Let_def)
  have code: "trackNewsUrl u w = track 30 u w"
    by (simp add: trackNewsUrl_def MAX_RECENT_def)
  have four: "x1 \<noteq> [] \<and> x2 \<noteq> [] \<and> x3 \<noteq> [] \<and> x4 \<noteq> [] \<longrightarrow>
        trackAll 3 [Some x1, Some x2, Some x3, Some x4] [] = [Some x2, Some x3, Some x4]
        \<and> includes_url (trackAll 3 [Some x1, Some x2, Some x3, Some x4] []) (Some x4)
        \<and> (x1 \<notin> {x2, x3, x4} \<longrightarrow>
             \<not> includes_url (trackAll 3 [Some x1, Some x2, Some x3, Some x4] []) (Some x1))"
    by (auto simp add: track_def truthy_def includes_url_def)
  have run: "returned (runXNewsPost agent force env s) = Inr (XNewsPosted p) \<longrightarrow>
        recentNewsUrls (after (runXNewsPost agent force env s))
          = trackNewsUrl (newsSource p) (recentNewsUrls s)
        \<and> \<not> includes_url (recentNewsUrls s) (newsSource p)"
    using runXNewsPost_window [of agent force env s] runXNewsPost_fresh [of agent force env s p]
    by auto
  have kept: "length (recentNewsUrls s) \<le> 30 \<longrightarrow>
        length (recentNewsUrls (after (runXNewsPost agent force env s))) \<le> 30"
    using runXNewsPost_window [of agent force env s]
          track_length [of "recentNewsUrls s" 30]
    by (auto simp add: trackNewsUrl_def MAX_RECENT_def split: sum.splits xnews_result.splits)
  have seen: "returned (runXNewsPost agent force env s) = Inr (NoNews msg who) \<longrightarrow>
        recentNewsUrls (after (runXNewsPost agent force env s)) = recentNewsUrls s"
    using runXNewsPost_window [of agent force env s] by auto
  show ?thesis using bound all step again code four run seen kept by blast
qed

text \<open>The theorem at capacity 3, at a full window and at a run of the pipeline.\<close>

theorem dedup_window_bounded_fifo_witness:
  "trackAll 3 [Some ''x1'', Some ''x2'', Some ''x3'', Some ''x4''] []
     = [Some ''x2'', Some ''x3'', Some ''x4'']
   \<and> \<not> includes_url (trackAll 3 [Some ''x1'', Some ''x2'', Some ''x3'', Some ''x4''] []) (Some ''x1'')
   \<and> includes_url (trackAll 3 [Some ''x1'', Some ''x2'', Some ''x3'', Some ''x4''] []) (Some ''x4'')
   \<and> track 3 (Some ''b'') [Some ''a'', Some ''b'', Some ''c''] = [Some ''b'', Some ''c'', Some ''b'']
   \<and> returned (runXNewsPost (Some sample_agent) None sample_env initial)
       = Inr (XNewsPosted sample_post)
   \<and> recentNewsUrls (after (runXNewsPost (Some sample_agent) None sample_env initial))
       = [Some ''https://x.com/solana/status/1'']"
  using dedup_window_bounded_fifo [of 3 "[Some ''x1'', Some ''x2'', Some ''x3'', Some ''x4'']"
          "[Some ''a'', Some ''b'', Some ''c'']" "Some ''b''" "''x1''" "''x2''" "''x3''" "''x4''"
          "Some sample_agent" None sample_env initial sample_post "[]" "[]"]
        sample_run
  by (simp add: truthy_def initial_def sample_post_def trackNewsUrl_def track_def
        MAX_RECENT_def Let_def includes_url_def)

section \<open>Claim C5: the window and runs that publish nothing\<close>

text \<open>
  C5 says that the window is updated only by runs whose content was published.
  The X News pipeline does check the window before it takes a fetched item as
  new (\<open>fetch_not_recent\<close>), and a run that rejects or finds no news leaves the
  window unchanged (\<open>runXNewsPost_window\<close>). But \<open>runXNewsPost\<close> calls
  \<open>trackNewsUrl\<close> whenever it reaches the posting step: in a preview, which
  makes no call to \<open>createForumPost\<close>, and in a live run whose call failed
  (\<open>createForumPost\<close> returned \<open>null\<close>). Evaluated at the sample responses from
  the initial state: the preview publishes nothing and records the URL; the live
  run with a failing agent returns no forum post id and records the URL; and a
  live run for the same account after the preview finds no news, because the item
  that was never published is filtered out as already posted.
\<close>

theorem unpublished_url_recorded:
  "published (previewXNews None sample_env initial) = []
   \<and> recentNewsUrls (after (previewXNews None sample_env initial))
       = [Some ''https://x.com/solana/status/1'']
   \<and> returned (runXNewsPost (Some failing_agent) None sample_env initial)
       = Inr (XNewsPosted (sample_post\<lparr>forumPostId := None\<rparr>))
   \<and> recentNewsUrls (after (runXNewsPost (Some failing_agent) None sample_env initial))
       = [Some ''https://x.com/solana/status/1'']
   \<and> returned (runXNewsPost (Some sample_agent) (Some ''solana'') sample_env
         (after (previewXNews None sample_env initial)))
       = Inr (NoNews ''No news found for @solana'' ''solana'')
   \<and> published (runXNewsPost (Some sample_agent) (Some ''solana'') sample_env
         (after (previewXNews None sample_env initial))) = []"
  by (simp add: xnews_eval sample_eval)

section \<open>Claim C6: the backoff executor\<close>

lemma retry_loop_success:
  "Suc c + n = k \<Longrightarrow> k \<le> m \<Longrightarrow> (\<forall>i. Suc c \<le> i \<and> i < k \<longrightarrow> isl (fn i)) \<Longrightarrow> fn k = Inr v \<Longrightarrow>
   retry_loop fn m d (Suc c) le c w =
     \<lparr>outcome = Inr v, invocations = k, waits = w @ map (\<lambda>a. d * 2 ^ (a - 1)) [Suc c..<k]\<rparr>"
proof (induction n arbitrary: c le w)
  case 0
  then show ?case by (subst retry_loop.simps) auto
next
  case (Suc n)
  from Suc.prems have lt: "Suc c < k" and le: "Suc c \<le> m" and lt': "Suc c < m" by auto
  from Suc.prems lt obtain e where e: "fn (Suc c) = Inl e"
    by (metis isl_def le_refl)
  have IH: "retry_loop fn m d (Suc (Suc c)) (Some e) (Suc c) (w @ [d * 2 ^ c]) =
     \<lparr>outcome = Inr v, invocations = k,
      waits = (w @ [d * 2 ^ c]) @ map (\<lambda>a. d * 2 ^ (a - 1)) [Suc (Suc c)..<k]\<rparr>"
    using Suc.prems by (intro Suc.IH) auto
  have "[Suc c..<k] = Suc c # [Suc (Suc c)..<k]" using lt by (simp add: upt_conv_Cons)
  then show ?case using e le lt' IH by (subst retry_loop.simps) simp
qed

lemma retry_loop_exhausted:
  "c + n = m \<Longrightarrow> (\<forall>i. Suc c \<le> i \<and> i \<le> m \<longrightarrow> fn i = Inl (err i)) \<Longrightarrow>
   retry_loop fn m d (Suc c) le c w =
     \<lparr>outcome = Inl (if n = 0 then le else Some (err m)), invocations = m,
      waits = w @ map (\<lambda>a. d * 2 ^ (a - 1)) [Suc c..<m]\<rparr>"
proof (induction n arbitrary: c le w)
  case 0
  then show ?case by (subst retry_loop.simps) auto
next
  case (Suc n)
  from Suc.prems have le: "Suc c \<le> m" and e: "fn (Suc c) = Inl (err (Suc c))" by auto
  show ?case
  proof (cases n)
    case 0
    with Suc.prems have m: "m = Suc c" by simp
    have "retry_loop fn m d (Suc (Suc c)) (Some (err (Suc c))) (Suc c) w
       = \<lparr>outcome = Inl (Some (err (Suc c))), invocations = Suc c, waits = w\<rparr>"
      using m by (subst retry_loop.simps) simp
    then show ?thesis using e m by (subst retry_loop.simps) simp
  next
    case (Suc n')
    with Suc.prems have lt: "Suc c < m" by simp
    have IH: "retry_loop fn m d (Suc (Suc c)) (Some (err (Suc c))) (Suc c) (w @ [d * 2 ^ c]) =
       \<lparr>outcome = Inl (if n = 0 then Some (err (Suc c)) else Some (err m)), invocations = m,
        waits = (w @ [d * 2 ^ c]) @ map (\<lambda>a. d * 2 ^ (a - 1)) [Suc (Suc c)..<m]\<rparr>"
      using Suc.prems by (intro Suc.IH) auto
    have "[Suc c..<m] = Suc c # [Suc (Suc c)..<m]" using lt by (simp add: upt_conv_Cons)
    then show ?thesis using e le lt IH Suc by (subst retry_loop.simps) simp
  qed
qed

text \<open>
  C6. For every operation and every \<open>maxAttempts = m \<ge> 1\<close>: when the operation
  fails on its first \<open>k - 1\<close> invocations and succeeds on the \<open>k\<close>-th, \<open>k \<le> m\<close>,
  the executor invokes it exactly \<open>k\<close> times and returns that success, having
  waited \<open>delayMs * 2 ^ (attempt - 1)\<close> after each failed attempt; when all \<open>m\<close>
  invocations fail, it invokes the operation exactly \<open>m\<close> times, waits only
  between attempts, and throws the error of the last one. With \<open>m = 3\<close> and an
  operation that fails twice and then succeeds there are exactly three
  invocations and the result is the success.
\<close>

theorem backoff_executor:
  "(1 \<le> k \<and> k \<le> m \<and> (\<forall>i. 1 \<le> i \<and> i < k \<longrightarrow> isl (fn i)) \<and> fn k = Inr v \<longrightarrow>
      retry fn m d =
        \<lparr>outcome = Inr v, invocations = k, waits = map (\<lambda>a. d * 2 ^ (a - 1)) [1..<k]\<rparr>)
   \<and> (1 \<le> m \<and> (\<forall>i. 1 \<le> i \<and> i \<le> m \<longrightarrow> fn i = Inl (err i)) \<longrightarrow>
      retry fn m d =
        \<lparr>outcome = Inl (Some (err m)), invocations = m,
         waits = map (\<lambda>a. d * 2 ^ (a - 1)) [1..<m]\<rparr>)
   \<and> (fn 1 = Inl e1 \<and> fn 2 = Inl e2 \<and> fn 3 = Inr v \<longrightarrow>
      retry fn 3 d = \<lparr>outcome = Inr v, invocations = 3, waits = [d, d * 2]\<rparr>)"
proof (intro conjI impI)
  assume a: "1 \<le> k \<and> k \<le> m \<and> (\<forall>i. 1 \<le> i \<and> i < k \<longrightarrow> isl (fn i)) \<and> fn k = Inr v"
  then obtain n where n: "Suc 0 + n = k" by (metis Suc_le_D One_nat_def plus_1_eq_Suc add.commute le_Suc_ex)
  show "retry fn m d =
        \<lparr>outcome = Inr v, invocations = k, waits = map (\<lambda>a. d * 2 ^ (a - 1)) [1..<k]\<rparr>"
    unfolding retry_def using retry_loop_success [of 0 n k m fn v d None "[]"] a n by simp
next
  assume a: "1 \<le> m \<and> (\<forall>i. 1 \<le> i \<and> i \<le> m \<longrightarrow> fn i = Inl (err i))"
  show "retry fn m d =
        \<lparr>outcome = Inl (Some (err m)), invocations = m,
         waits = map (\<lambda>a. d * 2 ^ (a - 1)) [1..<m]\<rparr>"
    unfolding retry_def using retry_loop_exhausted [of 0 m m fn err d None "[]"] a by simp
next
  assume a: "fn 1 = Inl e1 \<and> fn 2 = Inl e2 \<and> fn 3 = Inr v"
  have "\<forall>i. Suc 0 \<le> i \<and> i < 3 \<longrightarrow> isl (fn i)"
  proof (intro allI impI)
    fix i :: nat assume "Suc 0 \<le> i \<and> i < 3"
    then have "i = 1 \<or> i = 2" by auto
    then show "isl (fn i)" using a by auto
  qed
  then show "retry fn 3 d = \<lparr>outcome = Inr v, invocations = 3, waits = [d, d * 2]\<rparr>"
    unfolding retry_def using retry_loop_success [of 0 2 3 3 fn v d None "[]"] a
    by (simp add: upt_rec numeral_2_eq_2 numeral_3_eq_3)
qed

text \<open>The theorem at a concrete operation: two timeouts, then success; and three failures.\<close>

theorem backoff_executor_witness:
  "retry (\<lambda>k. if k < 3 then Inl (''timeout'') else Inr (200::nat)) 3 100
     = \<lparr>outcome = Inr 200, invocations = 3, waits = [100, 200]\<rparr>
   \<and> retry (\<lambda>k. (Inl k :: nat + nat)) 3 100
     = \<lparr>outcome = Inl (Some 3), invocations = 3, waits = [100, 200]\<rparr>"
  using backoff_executor [of 3 3 "\<lambda>k. if k < 3 then Inl (''timeout'') else Inr (200::nat)" 200 100 "\<lambda>i. ''timeout''" "''timeout''" "''timeout''"]
        backoff_executor [of 3 3 "\<lambda>k. (Inl k :: nat + nat)" 0 100 "\<lambda>i. i" 1 2]
  by (simp add: upt_rec numeral_2_eq_2 numeral_3_eq_3)

section \<open>Claim C7: triggers while an invocation is in flight\<close>

lemma begin_run_others:
  "recentNewsUrls (snd (begin_run p s)) = recentNewsUrls s
   \<and> (p \<noteq> XNews \<longrightarrow> xNewsIndex (snd (begin_run p s)) = xNewsIndex s)
   \<and> (p \<noteq> Showcase \<longrightarrow> modelIndex (snd (begin_run p s)) = modelIndex s)
   \<and> (p \<noteq> PumpFun \<longrightarrow> pumpfunType (snd (begin_run p s)) = pumpfunType s)"
  by (cases p)
     (simp_all add: begin_run_def xNewsBegin_def showcaseBegin_def pumpFunBegin_def
        selectOption_def truthy_def Let_def)

lemma begin_run_own:
  "xNewsIndex (snd (begin_run XNews s)) = xNewsIndex s + 1
   \<and> fst (begin_run XNews s) = X_NEWS_ACCOUNTS ! (xNewsIndex s mod length X_NEWS_ACCOUNTS)
   \<and> modelIndex (snd (begin_run Showcase s)) = modelIndex s + 1
   \<and> fst (begin_run Showcase s) = IMAGE_MODELS ! (modelIndex s mod length IMAGE_MODELS)
   \<and> pumpfunType (snd (begin_run PumpFun s))
       = (if pumpfunType s = ''trending'' then ''movers'' else ''trending'')
   \<and> fst (begin_run PumpFun s) = pumpfunType s"
  by (simp add: begin_run_def xNewsBegin_def showcaseBegin_def pumpFunBegin_def
        selectOption_def or_str_def truthy_def Let_def)

text \<open>
  C7 says that a trigger firing while the pipeline's previous invocation is in
  flight is a no-op. It is not: from the started scheduler, a second trigger of
  the X News handler while the first invocation is in flight leaves two
  invocations of that pipeline in flight and changes the scheduler state.
\<close>

theorem overlapping_trigger_counterexample:
  "running XNews (trigger XNews started) = 1
   \<and> running XNews (trigger XNews (trigger XNews started)) = 2
   \<and> trigger XNews (trigger XNews started) \<noteq> trigger XNews started
   \<and> inflight (trigger XNews (trigger XNews started))
       = [(XNews, ''solana''), (XNews, ''dexteraisol'')]"
  by (simp add: trigger_def running_def started_def initial_def begin_run_def xNewsBegin_def
        selectOption_def or_str_def truthy_def X_NEWS_ACCOUNTS_def Let_def)

text \<open>
  C7, amended. The handlers registered by \<open>startCron\<close> have no overlap guard: every
  trigger starts a new invocation of its pipeline at once, whether or not earlier
  invocations of that pipeline are in flight. The number of its invocations in
  flight grows by one, the new invocation is the youngest, and the selection
  state of the pipeline advances (the rotation index by one, the PumpFun type to
  the other value). A trigger never touches another pipeline: the invocations in
  flight of the other pipelines, their selection state and the dedup window are
  unchanged, so every pipeline can be triggered at any time. A trigger of an idle
  scheduler followed by the completion of the invocation is a run of the
  pipeline's run function without forced option.
\<close>

theorem trigger_starts_invocation:
  "running p (trigger p sc) = running p sc + 1
   \<and> inflight (trigger p sc) = inflight sc @ [(p, fst (begin_run p (store sc)))]
   \<and> (q \<noteq> p \<longrightarrow> running q (trigger p sc) = running q sc)
   \<and> (q \<noteq> p \<longrightarrow> filter (\<lambda>(r, opt). r = q) (inflight (trigger p sc))
                    = filter (\<lambda>(r, opt). r = q) (inflight sc))
   \<and> xNewsIndex (store (trigger XNews sc)) = xNewsIndex (store sc) + 1
   \<and> modelIndex (store (trigger Showcase sc)) = modelIndex (store sc) + 1
   \<and> pumpfunType (store (trigger PumpFun sc))
       = (if pumpfunType (store sc) = ''trending'' then ''movers'' else ''trending'')
   \<and> recentNewsUrls (store (trigger p sc)) = recentNewsUrls (store sc)
   \<and> (p \<noteq> XNews \<longrightarrow> xNewsIndex (store (trigger p sc)) = xNewsIndex (store sc))
   \<and> (p \<noteq> Showcase \<longrightarrow> modelIndex (store (trigger p sc)) = modelIndex (store sc))
   \<and> (p \<noteq> PumpFun \<longrightarrow> pumpfunType (store (trigger p sc)) = pumpfunType (store sc))
   \<and> settle agent (XNewsResponses env) (trigger XNews \<lparr>store = s, inflight = []\<rparr>)
       = (\<lparr>store = after (runXNewsPost agent None env s), inflight = []\<rparr>,
          published (runXNewsPost agent None env s))"
proof -
  have t: "trigger p' sc' = \<lparr>store = snd (begin_run p' (store sc')),
                            inflight = inflight sc' @ [(p', fst (begin_run p' (store sc')))]\<rparr>"
    for p' sc'
    by (simp add: trigger_def case_prod_beta)
  have own: "running p (trigger p sc) = running p sc + 1"
    by (simp add: t running_def)
  have other: "q \<noteq> p \<longrightarrow> filter (\<lambda>(r, opt). r = q) (inflight (trigger p sc))
                    = filter (\<lambda>(r, opt). r = q) (inflight sc)"
    by (auto simp add: t)
  have other': "q \<noteq> p \<longrightarrow> running q (trigger p sc) = running q sc"
    using other by (simp add: running_def)
  have seq: "settle agent (XNewsResponses env) (trigger XNews \<lparr>store = s, inflight = []\<rparr>)
       = (\<lparr>store = after (runXNewsPost agent None env s), inflight = []\<rparr>,
          published (runXNewsPost agent None env s))"
    by (simp add: t settle_def pipelineOf_def begin_run_def runXNewsPost_def Let_def)
  show ?thesis
    using own other other' seq begin_run_own [of "store sc"] begin_run_others [of p "store sc"]
    by (simp add: t)
qed

text \<open>
  The theorem at the started scheduler: an Image Showcase trigger while an X News
  invocation is in flight starts the showcase and leaves the X News invocation and
  the X News index as they were; a further X News trigger starts a second X News
  invocation.
\<close>

theorem trigger_starts_invocation_witness:
  "inflight (trigger Showcase (trigger XNews started))
     = [(XNews, ''solana''), (Showcase, ''nano-banana'')]
   \<and> running XNews (trigger Showcase (trigger XNews started)) = 1
   \<and> xNewsIndex (store (trigger Showcase (trigger XNews started))) = 1
   \<and> running XNews (trigger XNews (trigger Showcase (trigger XNews started))) = 2"
proof -
  let ?one = "trigger XNews started"
  let ?two = "trigger Showcase ?one"
  have one: "?one = \<lparr>store = initial\<lparr>xNewsIndex := 1\<rparr>, inflight = [(XNews, ''solana'')]\<rparr>"
    by (simp add: trigger_def started_def initial_def begin_run_def xNewsBegin_def
          selectOption_def or_str_def truthy_def X_NEWS_ACCOUNTS_def Let_def)
  have T1: "inflight ?two = inflight ?one @ [(Showcase, fst (begin_run Showcase (store ?one)))]"
    and T2: "XNews \<noteq> Showcase \<longrightarrow> running XNews ?two = running XNews ?one"
    and T3: "Showcase \<noteq> XNews \<longrightarrow> xNewsIndex (store ?two) = xNewsIndex (store ?one)"
    using trigger_starts_invocation [of Showcase ?one XNews None sample_env initial] by blast+
  have T4: "running XNews (trigger XNews ?two) = running XNews ?two + 1"
    using trigger_starts_invocation [of XNews ?two XNews None sample_env initial] by blast
  have b: "fst (begin_run Showcase (store ?one)) = ''nano-banana''"
    unfolding one
    by (simp add: begin_run_def showcaseBegin_def selectOption_def or_str_def truthy_def
          IMAGE_MODELS_def initial_def Let_def)
  have r1: "running XNews ?one = 1" and i1: "xNewsIndex (store ?one) = 1"
    unfolding one by (simp_all add: running_def)
  have a: "inflight ?two = [(XNews, ''solana''), (Showcase, ''nano-banana'')]"
    using T1 b unfolding one by simp
  have c: "running XNews ?two = 1" using T2 r1 by simp
  have d: "xNewsIndex (store ?two) = 1" using T3 i1 by simp
  have e: "running XNews (trigger XNews ?two) = 2" using T4 c by simp
  show ?thesis using a c d e by blast
qed

section \<open>Claim C8: preview and live runs agree\<close>

lemma xnews_preview_live:
  "published (previewXNews force env s) = []
   \<and> after (runXNewsPost (Some a) force env s) = after (previewXNews force env s)
   \<and> selected (runXNewsPost (Some a) force env s) = selected (previewXNews force env s)
   \<and> (case returned (previewXNews force env s) of
         Inl e \<Rightarrow>
           returned (runXNewsPost (Some a) force env s) = Inl e
           \<and> published (runXNewsPost (Some a) force env s) = []
       | Inr (NoNews m u) \<Rightarrow>
           returned (runXNewsPost (Some a) force env s) = Inr (NoNews m u)
           \<and> published (runXNewsPost (Some a) force env s) = []
       | Inr (XNewsPosted p) \<Rightarrow>
           forumPostId p = None
           \<and> published (runXNewsPost (Some a) force env s) = [(title p, body p)]
           \<and> returned (runXNewsPost (Some a) force env s)
               = Inr (XNewsPosted
                   (p\<lparr>forumPostId := forumPostIdOf (createForumPost a (title p) (body p))\<rparr>)))"
  by (simp add: previewXNews_def runXNewsPost_def xNewsRest_def postToForum_def
        forumPostIdOf_def Let_def
        split: prod.splits sum.splits)

lemma showcase_preview_live:
  "published (previewImageShowcase force env s) = []
   \<and> after (runImageShowcase (Some a) force env s) = after (previewImageShowcase force env s)
   \<and> selected (runImageShowcase (Some a) force env s) = selected (previewImageShowcase force env s)
   \<and> (case returned (previewImageShowcase force env s) of
         Inl e \<Rightarrow>
           returned (runImageShowcase (Some a) force env s) = Inl e
           \<and> published (runImageShowcase (Some a) force env s) = []
       | Inr p \<Rightarrow>
           forumPostId p = None
           \<and> published (runImageShowcase (Some a) force env s) = [(title p, body p)]
           \<and> returned (runImageShowcase (Some a) force env s)
               = Inr (p\<lparr>forumPostId := forumPostIdOf (createForumPost a (title p) (body p))\<rparr>))"
  by (simp add: previewImageShowcase_def runImageShowcase_def showcaseRest_def postToForum_def
        forumPostIdOf_def Let_def
        split: prod.splits sum.splits)

lemma pumpfun_preview_live:
  "published (previewPumpFun force env s) = []
   \<and> after (runPumpFunPost (Some a) force env s) = after (previewPumpFun force env s)
   \<and> selected (runPumpFunPost (Some a) force env s) = selected (previewPumpFun force env s)
   \<and> (case returned (previewPumpFun force env s) of
         Inl e \<Rightarrow>
           returned (runPumpFunPost (Some a) force env s) = Inl e
           \<and> published (runPumpFunPost (Some a) force env s) = []
       | Inr (NoData m t) \<Rightarrow>
           returned (runPumpFunPost (Some a) force env s) = Inr (NoData m t)
           \<and> published (runPumpFunPost (Some a) force env s) = []
       | Inr (PumpFunPosted p) \<Rightarrow>
           forumPostId p = None
           \<and> published (runPumpFunPost (Some a) force env s) = [(title p, body p)]
           \<and> returned (runPumpFunPost (Some a) force env s)
               = Inr (PumpFunPosted
                   (p\<lparr>forumPostId := forumPostIdOf (createForumPost a (title p) (body p))\<rparr>)))"
  by (simp add: previewPumpFun_def runPumpFunPost_def pumpFunRest_def postToForum_def
        forumPostIdOf_def Let_def
        split: prod.splits sum.splits option.splits)

text \<open>
  C8. For each of the three pipelines, every forced or absent option, every
  module state and all responses of the external services, the preview run and
  the live run (with any agent) select the same option and leave the same module
  state, and the preview makes no call to \<open>createForumPost\<close>. When the preview
  rejects or returns a no-data result, the live run does the same and publishes
  nothing. When the preview returns a post, its forum post id is \<open>null\<close>, the one
  call the live run makes to \<open>createForumPost\<close> carries exactly the preview's
  forum title and body, and the live run returns the preview's result with the
  forum post id of the publish response put in; every other field agrees.
\<close>

theorem preview_live_equivalence:
  "(published (previewXNews force env s) = []
    \<and> after (runXNewsPost (Some a) force env s) = after (previewXNews force env s)
    \<and> selected (runXNewsPost (Some a) force env s) = selected (previewXNews force env s)
    \<and> (case returned (previewXNews force env s) of
          Inl e \<Rightarrow>
            returned (runXNewsPost (Some a) force env s) = Inl e
            \<and> published (runXNewsPost (Some a) force env s) = []
        | Inr (NoNews m u) \<Rightarrow>
            returned (runXNewsPost (Some a) force env s) = Inr (NoNews m u)
            \<and> published (runXNewsPost (Some a) force env s) = []
        | Inr (XNewsPosted p) \<Rightarrow>
            forumPostId p = None
            \<and> published (runXNewsPost (Some a) force env s) = [(title p, body p)]
            \<and> returned (runXNewsPost (Some a) force env s)
                = Inr (XNewsPosted
                    (p\<lparr>forumPostId := forumPostIdOf (createForumPost a (title p) (body p))\<rparr>))))
   \<and> (published (previewImageShowcase force env2 s) = []
    \<and> after (runImageShowcase (Some a) force env2 s) = after (previewImageShowcase force env2 s)
    \<and> selected (runImageShowcase (Some a) force env2 s)
        = selected (previewImageShowcase force env2 s)
    \<and> (case returned (previewImageShowcase force env2 s) of
          Inl e \<Rightarrow>
            returned (runImageShowcase (Some a) force env2 s) = Inl e
            \<and> published (runImageShowcase (Some a) force env2 s) = []
        | Inr p \<Rightarrow>
            forumPostId p = None
            \<and> published (runImageShowcase (Some a) force env2 s) = [(title p, body p)]
            \<and> returned (runImageShowcase (Some a) force env2 s)
                = Inr (p\<lparr>forumPostId := forumPostIdOf (createForumPost a (title p) (body p))\<rparr>)))
   \<and> (published (previewPumpFun force env3 s) = []
    \<and> after (runPumpFunPost (Some a) force env3 s) = after (previewPumpFun force env3 s)
    \<and> selected (runPumpFunPost (Some a) force env3 s) = selected (previewPumpFun force env3 s)
    \<and> (case returned (previewPumpFun force env3 s) of
          Inl e \<Rightarrow>
            returned (runPumpFunPost (Some a) force env3 s) = Inl e
            \<and> published (runPumpFunPost (Some a) force env3 s) = []
        | Inr (NoData m t) \<Rightarrow>
            returned (runPumpFunPost (Some a) force env3 s) = Inr (NoData m t)
            \<and> published (runPumpFunPost (Some a) force env3 s) = []
        | Inr (PumpFunPosted p) \<Rightarrow>
            forumPostId p = None
            \<and> published (runPumpFunPost (Some a) force env3 s) = [(title p, body p)]
            \<and> returned (runPumpFunPost (Some a) force env3 s)
                = Inr (PumpFunPosted
                    (p\<lparr>forumPostId := forumPostIdOf (createForumPost a (title p) (body p))\<rparr>))))"
  using xnews_preview_live [of force env s a] showcase_preview_live [of force env2 s a]
        pumpfun_preview_live [of force env3 s a]
  by (intro conjI) blast+

text \<open>
  The theorem at the sample responses of the X News pipeline: the preview returns
  the sample post without a forum post id, the live run returns it with the id of
  the publish response, and publishes the preview's title and body.
\<close>

theorem preview_live_equivalence_witness:
  "returned (previewXNews None sample_env initial)
     = Inr (XNewsPosted (sample_post\<lparr>forumPostId := None\<rparr>))
   \<and> published (previewXNews None sample_env initial) = []
   \<and> returned (runXNewsPost (Some sample_agent) None sample_env initial)
       = Inr (XNewsPosted sample_post)
   \<and> published (runXNewsPost (Some sample_agent) None sample_env initial)
       = [(title sample_post, body sample_post)]
   \<and> after (runXNewsPost (Some sample_agent) None sample_env initial)
       = after (previewXNews None sample_env initial)"
proof -
  note T = preview_live_equivalence [of None sample_env initial sample_agent
             sample_showcase_env sample_pumpfun_env]
  have pre: "returned (previewXNews None sample_env initial)
               = Inr (XNewsPosted (sample_post\<lparr>forumPostId := None\<rparr>))"
    by (simp add: xnews_eval sample_eval)
  have none: "published (previewXNews None sample_env initial) = []"
    and same: "after (runXNewsPost (Some sample_agent) None sample_env initial)
                 = after (previewXNews None sample_env initial)"
    using T by blast+
  have "published (runXNewsPost (Some sample_agent) None sample_env initial)
          = [(title (sample_post\<lparr>forumPostId := None\<rparr>), body (sample_post\<lparr>forumPostId := None\<rparr>))]"
    using T pre by simp
  then have pub: "published (runXNewsPost (Some sample_agent) None sample_env initial)
          = [(title sample_post, body sample_post)]"
    by simp
  show ?thesis
    using pre none sample_run pub same by blast
qed

section \<open>Claim C9: a forced option leaves the selection state alone\<close>

text \<open>
  C9. When the caller supplies an option (a non-empty string) as forced account,
  model or PumpFun type, the run uses that option: it is the option the run
  selects, the account of the X News result, the model of the Image Showcase
  result. The stored selection state is not advanced: after the run,
  \<open>xNewsIndex\<close>, \<open>modelIndex\<close> and \<open>pumpfunType\<close> are what they were before, for
  each of the three pipelines, live or preview, whatever the external services
  answer; the Image Showcase and PumpFun runs leave the whole module state
  unchanged.
\<close>

theorem forced_override_frame:
  "force = Some x \<and> x \<noteq> [] \<longrightarrow>
     selected (runXNewsPost agent force env s) = x
     \<and> xNewsIndex (after (runXNewsPost agent force env s)) = xNewsIndex s
     \<and> modelIndex (after (runXNewsPost agent force env s)) = modelIndex s
     \<and> pumpfunType (after (runXNewsPost agent force env s)) = pumpfunType s
     \<and> (\<forall>p. returned (runXNewsPost agent force env s) = Inr (XNewsPosted p) \<longrightarrow> username p = x)
     \<and> selected (runImageShowcase agent force env2 s) = x
     \<and> after (runImageShowcase agent force env2 s) = s
     \<and> (\<forall>p. returned (runImageShowcase agent force env2 s) = Inr p \<longrightarrow> model p = x)
     \<and> selected (runPumpFunPost agent force env3 s) = x
     \<and> after (runPumpFunPost agent force env3 s) = s
     \<and> after (previewImageShowcase force env2 s) = s
     \<and> after (previewPumpFun force env3 s) = s
     \<and> xNewsIndex (after (previewXNews force env s)) = xNewsIndex s"
proof
  assume f: "force = Some x \<and> x \<noteq> []"
  then have so: "selectOption opts i force = (x, i)" for opts i
    by (simp add: selectOption_forced)
  have pb: "pumpFunBegin force s = (x, s)"
    using f by (simp add: pumpFunBegin_def or_str_def truthy_def)
  have x1: "selected (runXNewsPost agent' force env s) = x
            \<and> xNewsIndex (after (runXNewsPost agent' force env s)) = xNewsIndex s
            \<and> modelIndex (after (runXNewsPost agent' force env s)) = modelIndex s
            \<and> pumpfunType (after (runXNewsPost agent' force env s)) = pumpfunType s" for agent'
    using runXNewsPost_selection [of agent' force env s] by (simp add: so)
  have x2: "\<forall>p. returned (runXNewsPost agent force env s) = Inr (XNewsPosted p) \<longrightarrow> username p = x"
    using xnews_username [of agent force env s] x1 [of agent] by simp
  have s1: "selected (runImageShowcase agent' force env2 s) = x
            \<and> after (runImageShowcase agent' force env2 s) = s" for agent'
    using runImageShowcase_selection [of agent' force env2 s] by (simp add: so)
  have s2: "\<forall>p. returned (runImageShowcase agent force env2 s) = Inr p \<longrightarrow> model p = x"
    using showcase_model [of agent force env2 s] s1 [of agent] by simp
  have p1: "selected (runPumpFunPost agent' force env3 s) = x
            \<and> after (runPumpFunPost agent' force env3 s) = s" for agent'
    using runPumpFunPost_selection [of agent' force env3 s] by (simp add: pb)
  show "selected (runXNewsPost agent force env s) = x
     \<and> xNewsIndex (after (runXNewsPost agent force env s)) = xNewsIndex s
     \<and> modelIndex (after (runXNewsPost agent force env s)) = modelIndex s
     \<and> pumpfunType (after (runXNewsPost agent force env s)) = pumpfunType s
     \<and> (\<forall>p. returned (runXNewsPost agent force env s) = Inr (XNewsPosted p) \<longrightarrow> username p = x)
     \<and> selected (runImageShowcase agent force env2 s) = x
     \<and> after (runImageShowcase agent force env2 s) = s
     \<and> (\<forall>p. returned (runImageShowcase agent force env2 s) = Inr p \<longrightarrow> model p = x)
     \<and> selected (runPumpFunPost agent force env3 s) = x
     \<and> after (runPumpFunPost agent force env3 s) = s
     \<and> after (previewImageShowcase force env2 s) = s
     \<and> after (previewPumpFun force env3 s) = s
     \<and> xNewsIndex (after (previewXNews force env s)) = xNewsIndex s"
    using x1 [of agent] x1 [of None] x2 s1 [of agent] s1 [of None] s2 p1 [of agent] p1 [of None]
    by (simp add: previewXNews_def previewImageShowcase_def previewPumpFun_def)
qed

text \<open>
  The theorem at the forced PumpFun type \<open>movers\<close>, from the initial state (whose
  stored type is \<open>trending\<close>): the run uses \<open>movers\<close>, whose service is down in the
  sample responses, and the stored type is still \<open>trending\<close>.
\<close>

theorem forced_override_frame_witness:
  "selected (runPumpFunPost (Some sample_agent) (Some ''movers'') sample_pumpfun_env initial)
     = ''movers''
   \<and> returned (runPumpFunPost (Some sample_agent) (Some ''movers'') sample_pumpfun_env initial)
     = Inl ''service unavailable''
   \<and> after (runPumpFunPost (Some sample_agent) (Some ''movers'') sample_pumpfun_env initial)
     = initial
   \<and> pumpfunType initial = ''trending''
   \<and> selected (runXNewsPost None (Some ''zauthx402'') sample_env initial) = ''zauthx402''
   \<and> xNewsIndex (after (runXNewsPost None (Some ''zauthx402'') sample_env initial)) = 0
   \<and> after (runImageShowcase None (Some ''seedream'') sample_showcase_env initial) = initial"
proof -
  have ret: "returned (runPumpFunPost (Some sample_agent) (Some ''movers'') sample_pumpfun_env initial)
     = Inl ''service unavailable''"
    by (simp add: runPumpFunPost_def pumpFunBegin_def pumpFunRest_def or_str_def truthy_def
          sample_pumpfun_env_def Let_def)
  have i0: "xNewsIndex initial = 0" and t0: "pumpfunType initial = ''trending''"
    by (simp_all add: initial_def)
  show ?thesis
    using forced_override_frame [of "Some ''movers''" "''movers''" "Some sample_agent" sample_env
            initial sample_showcase_env sample_pumpfun_env]
          forced_override_frame [of "Some ''zauthx402''" "''zauthx402''" None sample_env
            initial sample_showcase_env sample_pumpfun_env]
          forced_override_frame [of "Some ''seedream''" "''seedream''" None sample_env
            initial sample_showcase_env sample_pumpfun_env]
          ret i0 t0
    by simp
qed

section \<open>Claim C10: recording a missing identifier is a no-op\<close>

lemma runXNewsPost_truthy:
  assumes "\<forall>v \<in> set (recentNewsUrls s). truthy v"
  shows "\<forall>v \<in> set (recentNewsUrls (after (runXNewsPost agent force env s))). truthy v"
proof (cases "returned (runXNewsPost agent force env s)")
  case (Inl e)
  then show ?thesis using assms runXNewsPost_window [of agent force env s] by simp
next
  case (Inr r)
  show ?thesis
  proof (cases r)
    case (NoNews m u)
    then show ?thesis using Inr assms runXNewsPost_window [of agent force env s] by simp
  next
    case (XNewsPosted p)
    then have "recentNewsUrls (after (runXNewsPost agent force env s))
                 = track MAX_RECENT (newsSource p) (recentNewsUrls s)"
      using Inr runXNewsPost_window [of agent force env s] by (simp add: trackNewsUrl_def)
    then show ?thesis using track_truthy [OF assms] by simp
  qed
qed

text \<open>
  C10. Recording a \<open>null\<close> or otherwise falsy identifier (the empty string) leaves
  the window exactly as it was, for every window and every capacity. Hence no
  \<open>null\<close> and no empty entry is ever in a window built by record operations, a
  membership check for \<open>null\<close> against such a window is false, and a news item
  whose URL could not be extracted (its \<open>news_url\<close> is \<open>null\<close>) is never
  filtered out as already seen. A run of the X News pipeline that posts an item
  without URL leaves the window unchanged, and every run keeps the window free of
  falsy entries.
\<close>

theorem record_missing_identifier_noop:
  "(\<not> truthy u \<longrightarrow> track cap u w = w \<and> trackNewsUrl u w = w)
   \<and> trackNewsUrl None w = w
   \<and> trackNewsUrl (Some []) w = w
   \<and> None \<notin> set (trackAll cap us [])
   \<and> Some [] \<notin> set (trackAll cap us [])
   \<and> \<not> includes_url (trackAll cap us []) None
   \<and> (\<not> truthy (item_news_url item) \<and> \<not> truthy (item_post_url item)
        \<and> \<not> truthy (item_url item) \<longrightarrow>
        news_url (toNewsItem user clock item) = None
        \<and> \<not> includes_url (trackAll cap us []) (news_url (toNewsItem user clock item)))
   \<and> (returned (runXNewsPost agent force env s) = Inr (XNewsPosted p) \<and> \<not> truthy (newsSource p) \<longrightarrow>
        recentNewsUrls (after (runXNewsPost agent force env s)) = recentNewsUrls s)
   \<and> ((\<forall>v \<in> set (recentNewsUrls s). truthy v) \<longrightarrow>
        (\<forall>v \<in> set (recentNewsUrls (after (runXNewsPost agent force env s))). truthy v))"
proof -
  have falsy: "\<not> truthy u \<longrightarrow> track cap u w = w \<and> trackNewsUrl u w = w"
    by (simp add: trackNewsUrl_def track_falsy)
  have null: "trackNewsUrl None w = w" and empty: "trackNewsUrl (Some []) w = w"
    by (simp_all add: trackNewsUrl_def track_def truthy_def)
  have all: "\<forall>v \<in> set (trackAll cap us []). truthy v"
    by (rule trackAll_truthy) simp
  have no_null: "None \<notin> set (trackAll cap us [])"
    using all by (auto simp add: truthy_def)
  have no_empty: "Some [] \<notin> set (trackAll cap us [])"
    using all by (auto simp add: truthy_def)
  have check: "\<not> includes_url (trackAll cap us []) None"
    using no_null by (simp add: includes_url_def)
  have item: "\<not> truthy (item_news_url item) \<and> \<not> truthy (item_post_url item)
        \<and> \<not> truthy (item_url item) \<longrightarrow>
        news_url (toNewsItem user clock item) = None
        \<and> \<not> includes_url (trackAll cap us []) (news_url (toNewsItem user clock item))"
    using check by (simp add: toNewsItem_def js_or_def)
  have run: "returned (runXNewsPost agent force env s) = Inr (XNewsPosted p) \<and> \<not> truthy (newsSource p) \<longrightarrow>
        recentNewsUrls (after (runXNewsPost agent force env s)) = recentNewsUrls s"
    using runXNewsPost_window [of agent force env s]
    by (auto simp add: trackNewsUrl_def track_falsy)
  have inv: "(\<forall>v \<in> set (recentNewsUrls s). truthy v) \<longrightarrow>
        (\<forall>v \<in> set (recentNewsUrls (after (runXNewsPost agent force env s))). truthy v)"
    using runXNewsPost_truthy [of s agent force env] by blast
  show ?thesis using falsy null empty no_null no_empty check item run inv by blast
qed

text \<open>
  The theorem at a window of two entries, and at a run whose only news item has no
  URL: the run posts the item and the window stays empty.
\<close>

theorem record_missing_identifier_noop_witness:
  "trackNewsUrl None [Some ''u1'', Some ''u2''] = [Some ''u1'', Some ''u2'']
   \<and> trackNewsUrl (Some []) [Some ''u1'', Some ''u2''] = [Some ''u1'', Some ''u2'']
   \<and> news_url (toNewsItem ''solana'' 500 sample_item_no_url) = None
   \<and> \<not> includes_url (trackAll 3 [Some ''u1'', None, Some ''u2''] []) None
   \<and> published (runXNewsPost (Some sample_agent) None sample_env_no_url initial)
       = [(satellite @ '' Latest from @solana: Validator update is out'',
           join newline
             [''## Validator update is out'',
              ''Validator update is out'',
              ''![News Banner](https://cdn/b.jpg)'',
              ''**Source:** https://x.com/solana'',
              ''**Sentiment:** Neutral'',
              ''---'',
              ''*Autonomously curated by Xona Agent '' @ emdash
                @ '' fetching latest Solana ecosystem news from X*''])]
   \<and> recentNewsUrls (after (runXNewsPost (Some sample_agent) None sample_env_no_url initial)) = []"
  using record_missing_identifier_noop [of None 30 "[Some ''u1'', Some ''u2'']"
          "[Some ''u1'', None, Some ''u2'']" sample_item_no_url "''solana''" 500
          "Some sample_agent" None sample_env_no_url initial]
        record_missing_identifier_noop [of "Some []" 3 "[Some ''u1'', Some ''u2'']"
          "[Some ''u1'', None, Some ''u2'']" sample_item_no_url "''solana''" 500
          "Some sample_agent" None sample_env_no_url initial]
  by (simp add: xnews_eval sample_eval)


end
